theory Spec2Isabelle
  imports Complex_Main "HOL-Library.Char_ord" "HOL-Library.List_Lexorder"
begin

section \<open>Python string operations used by the sky-model codec\<close>

text \<open>
  Strings are character lists. The functions below are the operations of Python's
  \<open>str\<close> that \<open>tableio.py\<close> and \<open>concatenate.py\<close> call, for the
  one-character separators the code uses.
\<close>

text \<open>\<open>s.split(c)\<close>: always at least one field; adjacent separators give empty fields.\<close>

fun split_on :: "char \<Rightarrow> string \<Rightarrow> string list" where
  "split_on c [] = [[]]"
| "split_on c (x # xs) =
     (if x = c then [] # split_on c xs
      else (case split_on c xs of w # ws \<Rightarrow> (x # w) # ws | [] \<Rightarrow> [[x]]))"

text \<open>\<open>sep.join(xs)\<close>.\<close>

fun join :: "string \<Rightarrow> string list \<Rightarrow> string" where
  "join sep [] = []"
| "join sep [x] = x"
| "join sep (x # y # ys) = x @ sep @ join sep (y # ys)"

text \<open>\<open>s.strip(chars)\<close> and \<open>s.strip()\<close> (ASCII whitespace).\<close>

definition strip_chars :: "string \<Rightarrow> string \<Rightarrow> string" where
  "strip_chars cs s =
     rev (dropWhile (\<lambda>c. c \<in> set cs) (rev (dropWhile (\<lambda>c. c \<in> set cs) s)))"

definition whitespace :: string where
  "whitespace = [CHR '' '', CHR 0x09, CHR 0x0A, CHR 0x0B, CHR 0x0C, CHR 0x0D]"

definition strip :: "string \<Rightarrow> string" where
  "strip s = strip_chars whitespace s"

text \<open>\<open>s.replace(old, new, count)\<close> and \<open>s.replace(old, new)\<close> for single characters.\<close>

fun replace_n :: "char \<Rightarrow> char \<Rightarrow> nat \<Rightarrow> string \<Rightarrow> string" where
  "replace_n old new n [] = []"
| "replace_n old new 0 s = s"
| "replace_n old new (Suc n) (x # xs) =
     (if x = old then new # replace_n old new n xs else x # replace_n old new (Suc n) xs)"

definition replace_char :: "char \<Rightarrow> char \<Rightarrow> string \<Rightarrow> string" where
  "replace_char old new s = map (\<lambda>x. if x = old then new else x) s"

text \<open>\<open>s.startswith(p)\<close>.\<close>

definition startswith :: "string \<Rightarrow> string \<Rightarrow> bool" where
  "startswith s p = (take (length p) s = p)"

text \<open>\<open>xs.index(x)\<close>: the first position of \<open>x\<close>; \<open>None\<close> where Python raises \<open>ValueError\<close>.\<close>

fun index_of :: "'a \<Rightarrow> 'a list \<Rightarrow> nat option" where
  "index_of x [] = None"
| "index_of x (y # ys) = (if x = y then Some 0 else map_option Suc (index_of x ys))"

text \<open>\<open>s.lower()\<close> on ASCII letters.\<close>

definition lower_char :: "char \<Rightarrow> char" where
  "lower_char c =
     (case index_of c ''ABCDEFGHIJKLMNOPQRSTUVWXYZ'' of
        Some i \<Rightarrow> ''abcdefghijklmnopqrstuvwxyz'' ! i
      | None \<Rightarrow> c)"

definition lower :: "string \<Rightarrow> string" where
  "lower s = map lower_char s"

section \<open>Values and errors\<close>

text \<open>
  A cell handed to the angle converters is a Python \<open>str\<close> or \<open>float\<close>. Floats are
  idealised as reals: the claims verified here concern which fields are parsed and how
  they are combined, not rounding. Python's \<open>float(s)\<close> on a string is a parameter
  \<open>pf\<close> of the model (\<open>None\<close> where it raises \<open>ValueError\<close>).
\<close>

datatype pyval = PStr string | PFloat real

datatype error =
    Exception string
  | IndexError
  | ValueError
  | KeyError
  | TypeError
  | UnboundLocalError

datatype angle_arg = Scalar pyval | Batch "pyval list"

text \<open>\<open>if type(X) is str or type(X) is float: X = [X]\<close>\<close>

fun as_batch :: "angle_arg \<Rightarrow> pyval list" where
  "as_batch (Scalar v) = [v]"
| "as_batch (Batch vs) = vs"

section \<open>AngleCodec: \<open>RA2Angle\<close> and \<open>Dec2Angle\<close> (tableio.py)\<close>

text \<open>
  One element of the comprehension in \<open>Dec2Angle\<close>:
  \<open>decsex = decstr.replace('.', ':', 2)\<close>, then
  \<open>float(decsex.split(':')[0]) + float(decsex.split(':')[1]) / 60.0
     + float(decsex.split(':')[2]) / 3600.0\<close>.
  \<open>None\<close> stands for any exception raised inside the \<open>try\<close> block (a missing
  field, a field that is not a number, an element that is not a string).
\<close>

definition dec_degrees :: "(string \<Rightarrow> real option) \<Rightarrow> pyval \<Rightarrow> real option" where
  "dec_degrees pf v =
     (case v of
        PFloat _ \<Rightarrow> None
      | PStr decstr \<Rightarrow>
          (let parts = split_on CHR '':'' (replace_n CHR ''.'' CHR '':'' 2 decstr)
           in if length parts < 3 then None
              else (case (pf (parts ! 0), pf (parts ! 1), pf (parts ! 2)) of
                      (Some d, Some m, Some s) \<Rightarrow> Some (d + m / 60 + s / 3600)
                    | _ \<Rightarrow> None)))"

text \<open>
  One element of the comprehension in \<open>RA2Angle\<close>:
  \<open>(float(rasex.split(':')[0]) + float(rasex.split(':')[1]) / 60.0
     + float(rasex.split(':')[2]) / 3600.0) * 15.0\<close>.
\<close>

definition ra_degrees :: "(string \<Rightarrow> real option) \<Rightarrow> pyval \<Rightarrow> real option" where
  "ra_degrees pf v =
     (case v of
        PFloat _ \<Rightarrow> None
      | PStr rasex \<Rightarrow>
          (let parts = split_on CHR '':'' rasex
           in if length parts < 3 then None
              else (case (pf (parts ! 0), pf (parts ! 1), pf (parts ! 2)) of
                      (Some h, Some m, Some s) \<Rightarrow> Some ((h + m / 60 + s / 3600) * 15)
                    | _ \<Rightarrow> None)))"

text \<open>
  The converters. The batch is all-string or all-numeric, decided by its first element
  (\<open>X[0]\<close> of an empty batch raises \<open>IndexError\<close> outside the \<open>try\<close>). On the
  numeric branch the batch goes to astropy's \<open>Angle\<close> constructor as it is; that
  constructor is not part of the repository and is the parameter \<open>Angle\<close>.
\<close>

definition Dec2Angle ::
  "(string \<Rightarrow> real option) \<Rightarrow> (pyval list \<Rightarrow> error + real list) \<Rightarrow> angle_arg
     \<Rightarrow> error + real list" where
  "Dec2Angle pf Angle arg =
     (case as_batch arg of
        [] \<Rightarrow> Inl IndexError
      | PStr s # rest \<Rightarrow>
          (case those (map (dec_degrees pf) (PStr s # rest)) of
             Some DecDeg \<Rightarrow> Inr DecDeg
           | None \<Rightarrow> Inl (Exception ''Dec values not understood.''))
      | PFloat x # rest \<Rightarrow> Angle (PFloat x # rest))"

definition RA2Angle ::
  "(string \<Rightarrow> real option) \<Rightarrow> (pyval list \<Rightarrow> error + real list) \<Rightarrow> angle_arg
     \<Rightarrow> error + real list" where
  "RA2Angle pf Angle arg =
     (case as_batch arg of
        [] \<Rightarrow> Inl IndexError
      | PStr s # rest \<Rightarrow>
          (case those (map (ra_degrees pf) (PStr s # rest)) of
             Some RADeg \<Rightarrow> Inr RADeg
           | None \<Rightarrow> Inl (Exception ''RA values not understood.''))
      | PFloat x # rest \<Rightarrow> Angle (PFloat x # rest))"

text \<open>
  The reading of a declination string that the specification describes, for comparison
  with \<open>dec_degrees\<close>: the first two dots are the field separators, the three fields
  are parsed as floats and combined as \<open>D + M/60 + S/3600\<close>.
\<close>

definition two_dot_fields :: "string \<Rightarrow> (string \<times> string \<times> string) option" where
  "two_dot_fields str =
     (let d = takeWhile (\<lambda>c. c \<noteq> CHR ''.'') str;
          r1 = dropWhile (\<lambda>c. c \<noteq> CHR ''.'') str;
          m = takeWhile (\<lambda>c. c \<noteq> CHR ''.'') (tl r1);
          r2 = dropWhile (\<lambda>c. c \<noteq> CHR ''.'') (tl r1)
      in if r1 = [] \<or> r2 = [] then None else Some (d, m, tl r2))"

definition spec_parseDec_one :: "(string \<Rightarrow> real option) \<Rightarrow> pyval \<Rightarrow> real option" where
  "spec_parseDec_one pf v =
     (case v of
        PFloat _ \<Rightarrow> None
      | PStr str \<Rightarrow>
          (case two_dot_fields str of
             None \<Rightarrow> None
           | Some (d, m, s) \<Rightarrow>
               (case (pf d, pf m, pf s) of
                  (Some D, Some M, Some S) \<Rightarrow> Some (D + M / 60 + S / 3600)
                | _ \<Rightarrow> None)))"

definition spec_parseDec :: "(string \<Rightarrow> real option) \<Rightarrow> pyval list \<Rightarrow> error + real list" where
  "spec_parseDec pf vs =
     (case those (map (spec_parseDec_one pf) vs) of
        Some degs \<Rightarrow> Inr degs
      | None \<Rightarrow> Inl (Exception ''Dec values not understood.''))"

text \<open>
  A fragment of Python's \<open>float()\<close> on strings, used only to evaluate the model on
  sample inputs: surrounding whitespace, an optional sign, decimal digits and an optional
  fraction.
\<close>

definition digit_val :: "char \<Rightarrow> nat option" where
  "digit_val c = index_of c ''0123456789''"

fun digits_val :: "nat \<Rightarrow> string \<Rightarrow> nat option" where
  "digits_val acc [] = Some acc"
| "digits_val acc (c # cs) =
     (case digit_val c of None \<Rightarrow> None | Some d \<Rightarrow> digits_val (10 * acc + d) cs)"

definition unsigned_decimal :: "string \<Rightarrow> real option" where
  "unsigned_decimal s =
     (let ip = takeWhile (\<lambda>c. c \<noteq> CHR ''.'') s;
          fp = drop 1 (dropWhile (\<lambda>c. c \<noteq> CHR ''.'') s)
      in if ip = [] \<and> fp = [] then None
         else (case (digits_val 0 ip, digits_val 0 fp) of
                 (Some i, Some f) \<Rightarrow> Some (real i + real f / 10 ^ length fp)
               | _ \<Rightarrow> None))"

definition decimal_float :: "string \<Rightarrow> real option" where
  "decimal_float s0 =
     (case strip s0 of
        [] \<Rightarrow> None
      | c # cs \<Rightarrow>
          if c = CHR ''-'' then map_option uminus (unsigned_decimal cs)
          else if c = CHR ''+'' then unsigned_decimal cs
          else unsigned_decimal (c # cs))"

text \<open>
  Samples for evaluation: astropy's \<open>Angle\<close> on a batch of floats holds the values
  themselves.
\<close>

definition Angle_floats :: "pyval list \<Rightarrow> error + real list" where
  "Angle_floats vs =
     (case those (map (\<lambda>v. case v of PFloat x \<Rightarrow> Some x | PStr _ \<Rightarrow> None) vs) of
        Some xs \<Rightarrow> Inr xs
      | None \<Rightarrow> Inl ValueError)"

text \<open>A declination cell in the dotted format has no colon of its own.\<close>

fun colon_free :: "pyval \<Rightarrow> bool" where
  "colon_free (PStr s) = (CHR '':'' \<notin> set s)"
| "colon_free (PFloat x) = True"


text \<open>
  Default and fill values (\<open>allowedColumnDefaults\<close> holds strings, floats, an integer
  and a list) and the entries of the table's \<open>meta\<close> dictionary: a column default (a float
  or a list of floats) under the column's name, a patch position \<open>[RA, Dec]\<close> under the patch's name.
\<close>

datatype dval = DStr string | DNum real | DInt int | DList "real list"

datatype metaval = MNum real | MList "real list" | MPatch real real

type_synonym meta = "string \<rightharpoonup> metaval"

section \<open>FormatHeaderParser: the column tokens of the header (tableio.py)\<close>

definition quote :: char where
  "quote = CHR 0x27"

definition allowedColumnNames :: "(string \<times> string) list" where
  "allowedColumnNames =
     [(''name'', ''Name''), (''type'', ''Type''), (''patch'', ''Patch''),
      (''ra'', ''Ra''), (''dec'', ''Dec''), (''i'', ''I''), (''q'', ''Q''), (''u'', ''U''),
      (''v'', ''V''), (''majoraxis'', ''MajorAxis''), (''minoraxis'', ''MinorAxis''),
      (''orientation'', ''Orientation''), (''ishapelet'', ''IShapelet''),
      (''qshapelet'', ''QShapelet''), (''ushapelet'', ''UShapelet''),
      (''vshapelet'', ''VShapelet''), (''category'', ''Category''),
      (''rotationmeasure'', ''RotationMeasure''),
      (''polarizationangle'', ''PolarizationAngle''),
      (''polarizedfraction'', ''PolarizedFraction''),
      (''referencewavelength'', ''ReferenceWavelength''),
      (''referencefrequency'', ''ReferenceFrequency''),
      (''spectralindex'', ''SpectralIndex'')]"

definition allowedColumnDefaults :: "(string \<times> dval) list" where
  "allowedColumnDefaults =
     [(''name'', DStr ''N/A''), (''type'', DStr ''N/A''), (''patch'', DStr ''N/A''),
      (''ra'', DStr ''N/A''), (''dec'', DStr ''N/A''), (''i'', DNum 0), (''q'', DNum 0),
      (''u'', DNum 0), (''v'', DNum 0), (''majoraxis'', DNum 0), (''minoraxis'', DNum 0),
      (''orientation'', DNum 0), (''ishapelet'', DStr ''N/A''),
      (''qshapelet'', DStr ''N/A''), (''ushapelet'', DStr ''N/A''),
      (''vshapelet'', DStr ''N/A''), (''category'', DInt 2),
      (''rotationmeasure'', DNum 0), (''polarizationangle'', DNum 0),
      (''polarizedfraction'', DNum 0), (''referencewavelength'', DStr ''N/A''),
      (''referencefrequency'', DNum 0), (''spectralindex'', DList [0])]"

text \<open>
  The scan for a list default that the split on \<open>,\<close> has cut:
  \<open>for cn in colNames: if '[' in cn and ']' not in cn: cnStart = cn;
    if ']' in cn and '[' not in cn: cnEnd = cn\<close>.
\<close>

definition opens_list :: "string \<Rightarrow> bool" where
  "opens_list cn = (CHR ''['' \<in> set cn \<and> CHR '']'' \<notin> set cn)"

definition closes_list :: "string \<Rightarrow> bool" where
  "closes_list cn = (CHR '']'' \<in> set cn \<and> CHR ''['' \<notin> set cn)"

definition cnStart :: "string list \<Rightarrow> string option" where
  "cnStart colNames = fold (\<lambda>cn acc. if opens_list cn then Some cn else acc) colNames None"

definition cnEnd :: "string list \<Rightarrow> string option" where
  "cnEnd colNames = fold (\<lambda>cn acc. if closes_list cn then Some cn else acc) colNames None"

text \<open>
  One iteration of the re-joining loop over \<open>enumerate(colNames)\<close>; the state is
  \<open>(colNamesFixed, toJoin)\<close> and \<open>n\<close> is \<open>len(colNames)\<close>.
\<close>

definition rejoin_step ::
  "nat \<Rightarrow> nat \<Rightarrow> nat \<Rightarrow> nat \<times> string \<Rightarrow> string list \<times> string list
     \<Rightarrow> string list \<times> string list" where
  "rejoin_step n indx1 indx2 icn st =
     (let i = fst icn; cn = snd icn; colNamesFixed = fst st; toJoin = snd st in
      if i < indx1 then (colNamesFixed @ [cn], toJoin)
      else if i \<le> indx2 then
        (if i = n - 1 then (colNamesFixed @ [join '','' (toJoin @ [cn])], toJoin @ [cn])
         else (colNamesFixed, toJoin @ [cn]))
      else if i = indx2 + 1 then (colNamesFixed @ [join '','' toJoin, cn], toJoin)
      else (colNamesFixed @ [cn], toJoin))"

text \<open>
  \<open>colNames.index(cnStart)\<close> and \<open>colNames.index(cnEnd)\<close> raise \<open>ValueError\<close>
  for a value that is not in the list, as \<open>None\<close> is when only the opening fragment
  was found.
\<close>

definition fix_colNames :: "string list \<Rightarrow> error + string list" where
  "fix_colNames colNames =
     (case cnStart colNames of
        None \<Rightarrow> Inr colNames
      | Some s \<Rightarrow>
          (case index_of s colNames of
             None \<Rightarrow> Inl ValueError
           | Some indx1 \<Rightarrow>
               (case cnEnd colNames of
                  None \<Rightarrow> Inl ValueError
                | Some e \<Rightarrow>
                    (case index_of e colNames of
                       None \<Rightarrow> Inl ValueError
                     | Some indx2 \<Rightarrow>
                         Inr (fst (fold (rejoin_step (length colNames) indx1 indx2)
                                     (enumerate 0 colNames) ([], [])))))))"

text \<open>
  The default of one column token: \<open>parts = colNames[i].split('=')\<close>,
  \<open>colName = parts[0].strip().lower()\<close>, and for two parts a list of floats when the
  literal holds a \<open>[\<close>, one float otherwise; a literal that is not a number gives no
  default (\<open>except ValueError: defaultVal = None\<close>).
\<close>

definition column_default :: "(string \<Rightarrow> real option) \<Rightarrow> string \<Rightarrow> string \<times> dval option" where
  "column_default pf token =
     (let parts = split_on CHR ''='' token;
          colName = lower (strip (hd parts))
      in (colName,
          if length parts = 2 then
            (if CHR ''['' \<in> set (parts ! 1)
             then map_option DList
                    (those (map (\<lambda>p. pf (strip p))
                       (split_on CHR '','' (strip_chars (quote # ''[]'') (parts ! 1)))))
             else map_option DNum (pf (strip_chars [quote] (parts ! 1))))
          else None))"

text \<open>
  One iteration of the loop over the columns: the canonical name, the entry of
  \<open>colDefaults\<close> and the entry of \<open>metaDict\<close> (an explicit default only).
\<close>

definition parse_column ::
  "(string \<Rightarrow> real option) \<Rightarrow> string \<Rightarrow> error + string \<times> dval option \<times> dval option" where
  "parse_column pf token =
     (let colName = fst (column_default pf token);
          defaultVal = snd (column_default pf token)
      in if colName = [] then Inl (Exception ''Skipping of columns is not yet supported.'')
         else (case map_of allowedColumnNames colName of
                 None \<Rightarrow>
                   Inl (Exception (''Column '' @ [quote] @ colName @ [quote]
                                     @ '' is not currently allowed''))
               | Some canonical \<Rightarrow>
                   (case defaultVal of
                      Some d \<Rightarrow> Inr (canonical, Some d, Some d)
                    | None \<Rightarrow> Inr (canonical, map_of allowedColumnDefaults colName, None))))"

fun parse_columns ::
  "(string \<Rightarrow> real option) \<Rightarrow> string list
     \<Rightarrow> error + (string \<times> dval option \<times> dval option) list" where
  "parse_columns pf [] = Inr []"
| "parse_columns pf (token # tokens) =
     (case parse_column pf token of
        Inl e \<Rightarrow> Inl e
      | Inr c \<Rightarrow>
          (case parse_columns pf tokens of
             Inl e \<Rightarrow> Inl e
           | Inr cs \<Rightarrow> Inr (c # cs)))"

text \<open>
  The columns of a normalised format string \<open>FORMAT = ...\<close>: the split on \<open>,\<close>, the
  re-joining, \<open>colNames[0] = colNames[0].split('=')[1]\<close> and the loop.
\<close>

definition header_columns ::
  "(string \<Rightarrow> real option) \<Rightarrow> string
     \<Rightarrow> error + (string \<times> dval option \<times> dval option) list" where
  "header_columns pf formatString =
     (if CHR '','' \<notin> set formatString
      then Inl (Exception (''Sky model must use '' @ [quote] @ '','' @ [quote]
                            @ '' as a field separator.''))
      else (case fix_colNames (split_on CHR '','' formatString) of
              Inl e \<Rightarrow> Inl e
            | Inr [] \<Rightarrow> Inl IndexError
            | Inr (colName0 # colNames) \<Rightarrow>
                (case split_on CHR ''='' colName0 of
                   _ # first # _ \<Rightarrow> parse_columns pf (first # colNames)
                 | _ \<Rightarrow> Inl IndexError)))"

section \<open>RowDecoder: the line loop of \<open>skyModelReader\<close> (tableio.py)\<close>

text \<open>
  \<open>re.search('\[.*\]', line)\<close>: the leftmost \<open>[\<close> that has a \<open>]\<close> after it
  with no newline in between, up to the last such \<open>]\<close> (\<open>.\<close> does not match a
  newline and \<open>*\<close> is greedy). The result is \<open>(a.start(), a.end())\<close>.
\<close>

definition newline :: char where
  "newline = CHR 0x0A"

fun re_search_bracket :: "string \<Rightarrow> (nat \<times> nat) option" where
  "re_search_bracket [] = None"
| "re_search_bracket (x # xs) =
     (let seg = takeWhile (\<lambda>c. c \<noteq> newline) xs
      in if x = CHR ''['' \<and> CHR '']'' \<in> set seg
         then Some (0, Suc (length seg - length (takeWhile (\<lambda>c. c \<noteq> CHR '']'') (rev seg))))
         else map_option (\<lambda>(a, b). (Suc a, Suc b)) (re_search_bracket xs))"

text \<open>
  \<open>s.replace(old, new)\<close> for a non-empty \<open>old\<close> (here the matched bracket text):
  every occurrence, left to right, without overlap.
\<close>

function replace_sub :: "string \<Rightarrow> string \<Rightarrow> string \<Rightarrow> string" where
  "replace_sub old new [] = []"
| "replace_sub old new (x # xs) =
     (if old \<noteq> [] \<and> take (length old) (x # xs) = old
      then new @ replace_sub old new (drop (length old) (x # xs))
      else x # replace_sub old new xs)"
  by pat_completeness auto
termination
  by (relation "measure (\<lambda>(old, new, s). length s)") auto

text \<open>
  The rewriting of a spectral-index entry, whose orders are separated by the column
  separator:
  \<open>b = line[a.start(): a.end()]; c = b.strip('[]');
    if ',' in c: c = c.replace(',', ';'); line = line.replace(b, c)\<close>.
\<close>

definition rewrite_brackets :: "string \<Rightarrow> string" where
  "rewrite_brackets line =
     (case re_search_bracket line of
        None \<Rightarrow> line
      | Some (st, en) \<Rightarrow>
          (let b = take (en - st) (drop st line);
               c = strip_chars ''[]'' b;
               c' = (if CHR '','' \<in> set c then replace_char CHR '','' CHR '';'' c else c)
           in replace_sub b c' line))"

text \<open>
  The split of a line into fields, after the rewriting:
  \<open>line = line.strip('\n'); ...; colLines = line.split(',')\<close>.
\<close>

definition line_fields :: "string \<Rightarrow> string list" where
  "line_fields line = split_on CHR '','' (rewrite_brackets (strip_chars [newline] line))"

definition is_header_or_comment :: "string \<Rightarrow> bool" where
  "is_header_or_comment line =
     (startswith line ''FORMAT'' \<or> startswith line ''format'' \<or> startswith line ''#'')"

text \<open>
  One iteration of the loop over the file's lines; the state is \<open>(metaDict, outlines)\<close>
  and \<open>ncols\<close> is \<open>len(colNames)\<close>. A line with an empty first field is a patch line when
  it has more than four fields and is dropped otherwise (\<open>continue\<close>); any other line
  is padded with blank fields and buffered.
\<close>

definition read_line ::
  "(string \<Rightarrow> real option) \<Rightarrow> (pyval list \<Rightarrow> error + real list) \<Rightarrow> nat \<Rightarrow> string
     \<Rightarrow> meta \<times> string list \<Rightarrow> error + meta \<times> string list" where
  "read_line pf Angle ncols line st =
     (let metaDict = fst st; outlines = snd st in
      if is_header_or_comment line then Inr (metaDict, outlines)
      else
        (let colLines = line_fields line in
         if strip (hd colLines) = [] then
           (if length colLines > 4 then
              (let patchName = strip (colLines ! 2) in
               case RA2Angle pf Angle (Scalar (PStr (strip (colLines ! 3)))) of
                 Inl e \<Rightarrow> Inl e
               | Inr patchRA \<Rightarrow>
                   (case Dec2Angle pf Angle (Scalar (PStr (strip (colLines ! 4)))) of
                      Inl e \<Rightarrow> Inl e
                    | Inr patchDec \<Rightarrow>
                        (case (patchRA, patchDec) of
                           (ra # _, dec # _) \<Rightarrow>
                             Inr (metaDict(patchName \<mapsto> MPatch ra dec), outlines)
                         | _ \<Rightarrow> Inl IndexError)))
            else Inr (metaDict, outlines))
         else
           Inr (metaDict,
                outlines @
                  [join '','' (colLines @ replicate (ncols - length colLines) '' '')])))"

fun read_lines ::
  "(string \<Rightarrow> real option) \<Rightarrow> (pyval list \<Rightarrow> error + real list) \<Rightarrow> nat \<Rightarrow> string list
     \<Rightarrow> meta \<times> string list \<Rightarrow> error + meta \<times> string list" where
  "read_lines pf Angle ncols [] st = Inr st"
| "read_lines pf Angle ncols (line # lines) st =
     (case read_line pf Angle ncols line st of
        Inl e \<Rightarrow> Inl e
      | Inr st' \<Rightarrow> read_lines pf Angle ncols lines st')"

section \<open>RowDecoder: the conversion of the SpectralIndex column (tableio.py)\<close>

text \<open>
  \<open>specOld = table['SpectralIndex'].data.tolist()\<close> is the list of the column's cells
  as the table reader typed them. The reader types a column as a whole, trying integers,
  then floats, then strings: the cells are integers when every entry of the column reads
  as an integer (\<open>[1]\<close>, \<open>[-2]\<close>), floats when every entry reads as a number and
  one of them is not an integer, strings when some entry is a \<open>;\<close>-separated list.
  \<open>COther\<close> is a cell that is none of these (\<open>None\<close> for a blank, masked entry).
  \<open>type(l) is float\<close> is false for an integer and for \<open>None\<close>, and \<open>l.split\<close>
  raises on both, inside the \<open>try\<close>. The column comes from one array, so it never
  holds cells of two of the three types.
\<close>

datatype cell = CFloat real | CStr string | CInt int | COther

text \<open>
  The body of both \<open>try\<close> blocks: \<open>[l]\<close> for a float, else
  \<open>[float(f) for f in l.split(';')]\<close>; \<open>None\<close> where it raises.
\<close>

definition spec_entry :: "(string \<Rightarrow> real option) \<Rightarrow> cell \<Rightarrow> real list option" where
  "spec_entry pf l =
     (case l of
        CFloat x \<Rightarrow> Some [x]
      | CStr s \<Rightarrow> those (map pf (split_on CHR '';'' s))
      | CInt i \<Rightarrow> None
      | COther \<Rightarrow> None)"

text \<open>The first loop: \<open>maxLen = 1\<close> for a float, else the running maximum.\<close>

definition maxLen_step :: "(string \<Rightarrow> real option) \<Rightarrow> cell \<Rightarrow> nat \<Rightarrow> nat" where
  "maxLen_step pf l maxLen =
     (case l of
        CFloat x \<Rightarrow> 1
      | _ \<Rightarrow>
          (case spec_entry pf l of
             Some specEntry \<Rightarrow> if length specEntry > maxLen then length specEntry else maxLen
           | None \<Rightarrow> maxLen))"

definition spec_maxLen :: "(string \<Rightarrow> real option) \<Rightarrow> cell list \<Rightarrow> nat" where
  "spec_maxLen pf specOld = fold (maxLen_step pf) specOld 0"

text \<open>
  The second loop: the entry padded with \<open>0.0\<close> while shorter than \<open>maxLen\<close>;
  \<open>[0.0]*maxLen\<close> where the \<open>try\<close> block raises.
\<close>

definition spec_row :: "(string \<Rightarrow> real option) \<Rightarrow> nat \<Rightarrow> cell \<Rightarrow> real list" where
  "spec_row pf maxLen l =
     (case spec_entry pf l of
        Some specEntry \<Rightarrow> specEntry @ replicate (maxLen - length specEntry) 0
      | None \<Rightarrow> replicate maxLen 0)"

definition convert_spectral :: "(string \<Rightarrow> real option) \<Rightarrow> cell list \<Rightarrow> real list list" where
  "convert_spectral pf specOld = map (spec_row pf (spec_maxLen pf specOld)) specOld"

text \<open>
  The number of coefficients a cell of the file supplies: one for a number, whether the
  reader typed it as a float or as an integer, the number of \<open>;\<close>-separated floats
  for a string, none for a blank cell or a string that is not a list of floats. Then the
  type of a cell, and the condition that a column is of one type.
\<close>

definition coeff_count :: "(string \<Rightarrow> real option) \<Rightarrow> cell \<Rightarrow> nat" where
  "coeff_count pf l =
     (case l of
        CFloat x \<Rightarrow> 1
      | CInt i \<Rightarrow> 1
      | CStr s \<Rightarrow>
          (case those (map pf (split_on CHR '';'' s)) of
             Some specEntry \<Rightarrow> length specEntry
           | None \<Rightarrow> 0)
      | COther \<Rightarrow> 0)"

fun is_float :: "cell \<Rightarrow> bool" where
  "is_float (CFloat x) = True"
| "is_float _ = False"

fun is_str :: "cell \<Rightarrow> bool" where
  "is_str (CStr s) = True"
| "is_str _ = False"

fun is_int :: "cell \<Rightarrow> bool" where
  "is_int (CInt i) = True"
| "is_int _ = False"

definition one_dtype :: "cell list \<Rightarrow> bool" where
  "one_dtype col =
     (list_all (\<lambda>l. \<not> is_str l \<and> \<not> is_int l) col
      \<or> list_all (\<lambda>l. \<not> is_float l \<and> \<not> is_int l) col
      \<or> list_all (\<lambda>l. \<not> is_float l \<and> \<not> is_str l) col)"

section \<open>CatalogWriter: \<open>skyModelWriter\<close> and \<open>rowStr\<close> (tableio.py)\<close>

text \<open>
  The table the writer is given: the column names in order, the rows as lists of cells in
  that order (after \<open>table.filled(fill_value=-9999)\<close>), and the meta dictionary.
  A cell is a string, a number or an array of numbers. The columns are taken to be in
  their makesourcedb units already, so that \<open>convert_unit_to\<close> changes nothing.
\<close>

datatype colval = VStr string | VNum real | VArr "real list"

record table =
  table_keys :: "string list"
  table_rows :: "colval list list"
  table_meta :: meta

text \<open>
  The renderings of numbers, which Python and astropy compute on floats, are parameters:
  \<open>str(d)\<close> and \<open>repr(d)\<close> of a float, and \<open>Angle(d, unit='degree')\<close> rendered
  by \<open>to_string(unit='hourangle', sep=':')\<close> and by \<open>to_string(unit='degree', sep='.')\<close>.
\<close>

record fmt =
  str_float :: "real \<Rightarrow> string"
  repr_float :: "real \<Rightarrow> string"
  ra_string :: "real \<Rightarrow> string"
  dec_string :: "real \<Rightarrow> string"

text \<open>\<open>str(dlist)\<close> of a list of floats.\<close>

definition str_list :: "fmt \<Rightarrow> real list \<Rightarrow> string" where
  "str_list f dlist = ''['' @ join '', '' (map (repr_float f) dlist) @ '']''"

text \<open>
  \<open>'{1}'.format(table.meta[colName])\<close>; an entry that a patch of the column's name has
  put there is rendered as the list of its two numbers.
\<close>

definition str_meta :: "fmt \<Rightarrow> metaval \<Rightarrow> string" where
  "str_meta f v =
     (case v of
        MNum x \<Rightarrow> str_float f x
      | MList l \<Rightarrow> str_list f l
      | MPatch ra dec \<Rightarrow> str_list f [ra, dec])"

text \<open>
  The header token of a column; \<open>None\<close> for a column that is not a makesourcedb column
  (\<open>continue\<close>).
\<close>

definition colHeader :: "fmt \<Rightarrow> meta \<Rightarrow> string \<Rightarrow> string option" where
  "colHeader f metaDict colKey =
     (case map_of allowedColumnNames (lower colKey) of
        None \<Rightarrow> None
      | Some colName \<Rightarrow>
          Some (case metaDict colName of
                  Some v \<Rightarrow> colName @ ''='' @ [quote] @ str_meta f v @ [quote]
                | None \<Rightarrow>
                    if colName = ''SpectralIndex''
                    then colName @ ''='' @ [quote] @ ''[]'' @ [quote]
                    else colName))"

definition format_line :: "fmt \<Rightarrow> meta \<Rightarrow> string list \<Rightarrow> string" where
  "format_line f metaDict colKeys =
     ''FORMAT = '' @ join '', '' (List.map_filter (colHeader f metaDict) colKeys)"

text \<open>\<open>np.any(d == -9999)\<close>; a string is not equal to the number.\<close>

fun is_fill :: "colval \<Rightarrow> bool" where
  "is_fill (VNum x) = (x = - 9999)"
| "is_fill (VArr l) = (- 9999 \<in> set l)"
| "is_fill (VStr s) = False"

text \<open>
  The rendering of one cell in \<open>rowStr\<close>. An array equal to the fill value of the meta
  dictionary, or to the built-in default when the dictionary has none, is written as the
  empty list. \<open>Ra\<close> and \<open>Dec\<close> hold numbers.
\<close>

definition is_default_array :: "meta \<Rightarrow> string \<Rightarrow> real list \<Rightarrow> bool" where
  "is_default_array metaDict colName dlist =
     (case metaDict colName of
        Some (MList fillVal) \<Rightarrow> dlist = fillVal
      | Some (MPatch ra dec) \<Rightarrow> dlist = [ra, dec]
      | Some (MNum x) \<Rightarrow> False
      | None \<Rightarrow> map_of allowedColumnDefaults (lower colName) = Some (DList dlist))"

definition cell_string :: "fmt \<Rightarrow> meta \<Rightarrow> string \<Rightarrow> colval \<Rightarrow> string option" where
  "cell_string f metaDict colKey d =
     (case map_of allowedColumnNames (lower colKey) of
        None \<Rightarrow> None
      | Some colName \<Rightarrow>
          Some (if is_fill d then '' ''
                else (case d of
                        VArr dlist \<Rightarrow>
                          str_list f (if is_default_array metaDict colName dlist then [] else dlist)
                      | VNum x \<Rightarrow>
                          if colKey = ''Ra'' then ra_string f x
                          else if colKey = ''Dec'' then dec_string f x
                          else str_float f x
                      | VStr str \<Rightarrow> str)))"

text \<open>
  \<open>rowStr\<close>: the cells of the makesourcedb columns, then
  \<open>while line[-1] == ' ': line.pop()\<close>, which raises \<open>IndexError\<close> on a line that has
  become empty.
\<close>

definition rowStr :: "fmt \<Rightarrow> meta \<Rightarrow> string list \<Rightarrow> colval list \<Rightarrow> error + string list" where
  "rowStr f metaDict colKeys row =
     (let line = List.map_filter (\<lambda>kd. cell_string f metaDict (fst kd) (snd kd)) (zip colKeys row);
          trimmed = rev (dropWhile (\<lambda>dstr. dstr = '' '') (rev line))
      in if trimmed = [] then Inl IndexError else Inr trimmed)"

text \<open>The two entries of \<open>outLines\<close> for a row: \<open>', '.join(line)\<close> and a newline.\<close>

fun row_lines :: "fmt \<Rightarrow> meta \<Rightarrow> string list \<Rightarrow> colval list list \<Rightarrow> error + string list" where
  "row_lines f metaDict colKeys [] = Inr []"
| "row_lines f metaDict colKeys (row # more_rows) =
     (case rowStr f metaDict colKeys row of
        Inl e \<Rightarrow> Inl e
      | Inr line \<Rightarrow>
          (case row_lines f metaDict colKeys more_rows of
             Inl e \<Rightarrow> Inl e
           | Inr ls \<Rightarrow> Inr (join '', '' line # [newline] # ls)))"

text \<open>
  \<open>table.group_by('Patch')\<close> (astropy) returns the table sorted by the key column, rows
  of equal key in their former order, and \<open>table.groups.keys['Patch']\<close> holds the
  distinct keys in that order. Strings are ordered as their bytes are.
\<close>

definition patch_of :: "string list \<Rightarrow> colval list \<Rightarrow> string" where
  "patch_of colKeys row =
     (case index_of ''Patch'' colKeys of
        None \<Rightarrow> []
      | Some k \<Rightarrow> (case row ! k of VStr p \<Rightarrow> p | _ \<Rightarrow> []))"

definition group_by_Patch :: "string list \<Rightarrow> colval list list \<Rightarrow> colval list list" where
  "group_by_Patch colKeys rs = sort_key (patch_of colKeys) rs"

definition groups_keys :: "string list \<Rightarrow> colval list list \<Rightarrow> string list" where
  "groups_keys colKeys grouped = remdups_adj (map (patch_of colKeys) grouped)"

text \<open>
  \<open>if patchName in table.meta: gRA, gDec = table.meta[patchName]
    else: gRA = 0.0; gDec = 0.0\<close>; the unpacking needs an entry of two values.
\<close>

definition patch_position :: "meta \<Rightarrow> string \<Rightarrow> error + real \<times> real" where
  "patch_position metaDict patchName =
     (case metaDict patchName of
        None \<Rightarrow> Inr (0, 0)
      | Some (MPatch gRA gDec) \<Rightarrow> Inr (gRA, gDec)
      | Some (MList [gRA, gDec]) \<Rightarrow> Inr (gRA, gDec)
      | Some (MList l) \<Rightarrow> Inl ValueError
      | Some (MNum x) \<Rightarrow> Inl TypeError)"

text \<open>\<open>' , , {0}, {1}, {2}\n'.format(patchName, gRAStr, gDecStr)\<close>\<close>

definition patch_line :: "fmt \<Rightarrow> string \<Rightarrow> real \<times> real \<Rightarrow> string" where
  "patch_line f patchName pos =
     '' , , '' @ patchName @ '', '' @ ra_string f (fst pos) @ '', '' @ dec_string f (snd pos)
       @ [newline]"

fun patch_lines :: "fmt \<Rightarrow> meta \<Rightarrow> string list \<Rightarrow> error + string list" where
  "patch_lines f metaDict [] = Inr []"
| "patch_lines f metaDict (patchName # patchNames) =
     (case patch_position metaDict patchName of
        Inl e \<Rightarrow> Inl e
      | Inr pos \<Rightarrow>
          (case patch_lines f metaDict patchNames of
             Inl e \<Rightarrow> Inl e
           | Inr ls \<Rightarrow> Inr (patch_line f patchName pos # ls)))"

text \<open>
  The lines \<open>skyModelWriter\<close> writes: the format line and two newlines; with a
  \<open>Patch\<close> column the patch lines of all groups, then the rows of the grouped table;
  without one the rows as they are.
\<close>

definition skyModelWriter :: "fmt \<Rightarrow> table \<Rightarrow> error + string list" where
  "skyModelWriter f t =
     (let head = [format_line f (table_meta t) (table_keys t), [newline], [newline]] in
      if ''Patch'' \<in> set (table_keys t) then
        (let grouped = group_by_Patch (table_keys t) (table_rows t);
             patchNames = groups_keys (table_keys t) grouped
         in case patch_lines f (table_meta t) patchNames of
              Inl e \<Rightarrow> Inl e
            | Inr pls \<Rightarrow>
                (case row_lines f (table_meta t) (table_keys t) grouped of
                   Inl e \<Rightarrow> Inl e
                 | Inr rls \<Rightarrow> Inr (head @ pls @ rls)))
      else
        (case row_lines f (table_meta t) (table_keys t) (table_rows t) of
           Inl e \<Rightarrow> Inl e
         | Inr rls \<Rightarrow> Inr (head @ rls)))"

text \<open>
  The renderings of the numbers that occur in the samples evaluated below
  (\<open>str(1.0)\<close>, \<open>repr(0.0)\<close>, 15 degrees as hours, 1 and 0 degrees).
\<close>

definition sample_fmt :: fmt where
  "sample_fmt =
     \<lparr>str_float = (\<lambda>x. if x = 1 then ''1.0'' else ''0.0''),
      repr_float = (\<lambda>x. if x = 1 then ''1.0'' else ''0.0''),
      ra_string = (\<lambda>x. if x = 15 then ''1:00:00'' else ''0:00:00''),
      dec_string = (\<lambda>x. if x = 1 then ''1.00.00'' else ''0.00.00'')\<rparr>"

section \<open>MergeEngine: \<open>concatenate\<close> (operations/concatenate.py)\<close>

text \<open>
  A table is its list of rows. A row holds the columns the merge reads (\<open>Name\<close>,
  the position, \<open>SpectralIndex\<close>) and the remaining columns as one value.
\<close>

record 'a row =
  Name :: string
  Ra :: real
  Dec :: real
  SpectralIndex :: "real list"
  cols :: 'a

text \<open>\<open>np.where(xs == x)[0]\<close>: the indices at which \<open>x\<close> stands, ascending.\<close>

definition positions :: "'k \<Rightarrow> 'k list \<Rightarrow> nat list" where
  "positions x xs = filter (\<lambda>i. xs ! i = x) [0..<length xs]"

subsection \<open>Matching by position\<close>

text \<open>
  \<open>catalog1.match_to_catalog_sky(catalog2)\<close> (astropy): for each coordinate of
  \<open>catalog1\<close>, the index of the nearest coordinate of \<open>catalog2\<close> and the on-sky
  separation to it; it needs a non-empty \<open>catalog2\<close>. The separation is the parameter
  \<open>sep\<close>, in degrees; among equally near coordinates the first is taken here.
\<close>

fun nearest :: "('p \<Rightarrow> real) \<Rightarrow> nat \<Rightarrow> 'p list \<Rightarrow> nat \<times> real \<Rightarrow> nat \<times> real" where
  "nearest d j [] best = best"
| "nearest d j (q # qs) best =
     nearest d (Suc j) qs (if d q < snd best then (j, d q) else best)"

definition match_to_catalog_sky ::
  "('p \<Rightarrow> 'p \<Rightarrow> real) \<Rightarrow> 'p list \<Rightarrow> 'p list \<Rightarrow> error + (nat \<times> real) list" where
  "match_to_catalog_sky sep catalog1 catalog2 =
     (case catalog2 of
        [] \<Rightarrow> Inl ValueError
      | q # qs \<Rightarrow> Inr (map (\<lambda>p. nearest (sep p) 1 qs (0, sep p q)) catalog1))"

text \<open>
  The match columns, from the list of \<open>(idx[i], d2d[i])\<close>:
  \<open>matches = np.where(d2d.value <= radius)\<close>,
  \<open>matchCol1 = range(len(LSM1))\<close>, \<open>matchCol2 = range(len(LSM2)) + len(LSM1)\<close>,
  \<open>matchCol2[idx[matches]] = matchCol1[matches]\<close> (the assignments in ascending order
  of \<open>matches\<close>).
\<close>

definition match_columns :: "(nat \<times> real) list \<Rightarrow> real \<Rightarrow> nat \<Rightarrow> nat list \<times> nat list" where
  "match_columns idx_d2d radius n2 =
     (let n1 = length idx_d2d;
          matches = filter (\<lambda>i. snd (idx_d2d ! i) \<le> radius) [0..<n1];
          matchCol1 = [0..<n1];
          matchCol2 = map (\<lambda>j. j + n1) [0..<n2]
      in (matchCol1,
          fold (\<lambda>i col. col[fst (idx_d2d ! i) := matchCol1 ! i]) matches matchCol2))"

definition position_match ::
  "('p \<Rightarrow> 'p \<Rightarrow> real) \<Rightarrow> 'p list \<Rightarrow> 'p list \<Rightarrow> real \<Rightarrow> error + nat list \<times> nat list" where
  "position_match sep catalog1 catalog2 radius =
     (case match_to_catalog_sky sep catalog1 catalog2 of
        Inl e \<Rightarrow> Inl e
      | Inr idx_d2d \<Rightarrow> Inr (match_columns idx_d2d radius (length catalog2)))"

text \<open>
  The great-circle separation of two positions \<open>(RA, Dec)\<close> in degrees, as a real
  number, and the match ids the specification describes (every row of catalog 2 looks for
  its nearest row of catalog 1), for comparison with \<open>position_match\<close>.
\<close>

definition great_circle :: "real \<times> real \<Rightarrow> real \<times> real \<Rightarrow> real" where
  "great_circle p q =
     (let ra1 = fst p * pi / 180; dec1 = snd p * pi / 180;
          ra2 = fst q * pi / 180; dec2 = snd q * pi / 180
      in arccos (sin dec1 * sin dec2 + cos dec1 * cos dec2 * cos (ra1 - ra2)) * 180 / pi)"

definition spec_matchCol2 ::
  "('p \<Rightarrow> 'p \<Rightarrow> real) \<Rightarrow> 'p list \<Rightarrow> 'p list \<Rightarrow> real \<Rightarrow> nat list" where
  "spec_matchCol2 sep catalog1 catalog2 radius =
     map (\<lambda>j. case catalog1 of
                 [] \<Rightarrow> j + length catalog1
               | p # ps \<Rightarrow>
                   (let near = nearest (sep (catalog2 ! j)) 1 ps (0, sep (catalog2 ! j) p)
                    in if snd near \<le> radius then fst near else j + length catalog1))
         [0..<length catalog2]"

subsection \<open>Stacking, and the SpectralIndex column taken off and put back\<close>

text \<open>
  \<open>table.remove_column('SpectralIndex')\<close> before the stacking: the stacked rows carry
  no spectral index until it is put back. A stacked row is paired with its entry of the
  \<open>match\<close> column, which exists for \<open>matchBy = 'position'\<close> only.
\<close>

definition remove_SpectralIndex :: "'a row \<Rightarrow> 'a row" where
  "remove_SpectralIndex r = r\<lparr>SpectralIndex := []\<rparr>"

text \<open>
  For a \<open>matchBy\<close> that is neither \<open>name\<close> nor \<open>position\<close> the parent table is left
  as it is, and adding the SpectralIndex column it still has fails.
\<close>

definition stack_tables ::
  "(real \<times> real \<Rightarrow> real \<times> real \<Rightarrow> real) \<Rightarrow> 'a row list \<Rightarrow> 'a row list \<Rightarrow> string \<Rightarrow> real
     \<Rightarrow> error + (nat option \<times> 'a row) list" where
  "stack_tables sep table1 table2 matchBy radius =
     (let stacked = map remove_SpectralIndex (table1 @ table2) in
      if lower matchBy = ''name'' then Inr (map (Pair None) stacked)
      else if lower matchBy = ''position'' then
        (case position_match sep (map (\<lambda>r. (Ra r, Dec r)) table1)
                (map (\<lambda>r. (Ra r, Dec r)) table2) radius of
           Inl e \<Rightarrow> Inl e
         | Inr (matchCol1, matchCol2) \<Rightarrow> Inr (zip (map Some (matchCol1 @ matchCol2)) stacked))
      else Inl ValueError)"

text \<open>
  \<open>spData = np.zeros((len(LSM1), 2))\<close> and \<open>spData[i] = spCol[indx]\<close>: the rows
  selected by name, an array of shape \<open>(k, w)\<close>, are assigned to a row of two floats.
  numpy accepts it for one selected row of width two, broadcasts one selected row of
  width one to both places, and raises \<open>ValueError\<close> for any other shape.
\<close>

fun spData_row :: "real list list \<Rightarrow> error + real list" where
  "spData_row [[a, b]] = Inr [a, b]"
| "spData_row [[a]] = Inr [a, a]"
| "spData_row sel = Inl ValueError"

text \<open>
  \<open>if name in nameCol2: indx = np.where(nameCol2.data == name); spData[i] = spCol2[indx]
    else: indx = np.where(nameCol1.data == name); spData[i] = spCol1[indx]\<close>
\<close>

definition spData_of ::
  "string list \<Rightarrow> real list list \<Rightarrow> string list \<Rightarrow> real list list \<Rightarrow> string
     \<Rightarrow> error + real list" where
  "spData_of nameCol1 spCol1 nameCol2 spCol2 name =
     (if name \<in> set nameCol2
      then spData_row (map (\<lambda>i. spCol2 ! i) (positions name nameCol2))
      else spData_row (map (\<lambda>i. spCol1 ! i) (positions name nameCol1)))"

fun add_SpectralIndex ::
  "(string \<Rightarrow> error + real list) \<Rightarrow> (nat option \<times> 'a row) list
     \<Rightarrow> error + (nat option \<times> 'a row) list" where
  "add_SpectralIndex sp [] = Inr []"
| "add_SpectralIndex sp ((m, r) # rows) =
     (case sp (Name r) of
        Inl e \<Rightarrow> Inl e
      | Inr v \<Rightarrow>
          (case add_SpectralIndex sp rows of
             Inl e \<Rightarrow> Inl e
           | Inr rows' \<Rightarrow> Inr ((m, r\<lparr>SpectralIndex := v\<rparr>) # rows')))"

subsection \<open>Conflict resolution\<close>

text \<open>
  \<open>for val in vals: indx = np.where(vals == val)[0];
    if len(indx) > 1: toRemove.append(indx[1:]) if keep == 'from1'
    else toRemove.append(indx[0])\<close>. The list gets one entry for every row whose key
  stands more than once: the array of the later indices of the key for \<open>from1\<close>, the
  first index of the key for any other \<open>keep\<close>.
\<close>

datatype index = Idx nat | Arr "nat list"

definition toRemove :: "string \<Rightarrow> 'k list \<Rightarrow> index list" where
  "toRemove keep vals =
     List.map_filter
       (\<lambda>val. case positions val vals of
                 i0 # i1 # others \<Rightarrow> Some (if keep = ''from1'' then Arr (i1 # others) else Idx i0)
               | _ \<Rightarrow> None)
       vals"

text \<open>
  \<open>table.remove_rows(toRemove)\<close> (astropy) sets \<open>keep_mask[toRemove] = False\<close>, for
  which numpy makes one index array of the list. A list of integers makes an index of one
  dimension and a list of arrays of one length an index of two dimensions; the mask is
  cleared at every integer in it. Arrays of different lengths make no array, and numpy
  raises \<open>ValueError\<close>. An index past the end of the table raises \<open>IndexError\<close>.
\<close>

fun index_shape :: "index \<Rightarrow> nat option" where
  "index_shape (Idx i) = None"
| "index_shape (Arr a) = Some (length a)"

fun index_entries :: "index \<Rightarrow> nat list" where
  "index_entries (Idx i) = [i]"
| "index_entries (Arr a) = a"

definition one_shape :: "index list \<Rightarrow> bool" where
  "one_shape row_specifier =
     (case row_specifier of
        [] \<Rightarrow> True
      | x # xs \<Rightarrow> list_all (\<lambda>y. index_shape y = index_shape x) xs)"

definition remove_rows :: "index list \<Rightarrow> 'r list \<Rightarrow> error + 'r list" where
  "remove_rows row_specifier rows =
     (let idxs = concat (map index_entries row_specifier) in
      if \<not> one_shape row_specifier then Inl ValueError
      else if list_ex (\<lambda>i. length rows \<le> i) idxs then Inl IndexError
      else Inr (map snd (filter (\<lambda>ir. fst ir \<notin> set idxs) (enumerate 0 rows))))"

definition remove_duplicates :: "string \<Rightarrow> 'k list \<Rightarrow> 'r list \<Rightarrow> error + 'r list" where
  "remove_duplicates keep vals rows =
     (if keep = ''from1'' \<or> keep = ''from2'' then remove_rows (toRemove keep vals) rows
      else Inr rows)"

text \<open>
  The column the duplicates are found in: \<open>colName = 'Name'\<close> or \<open>'match'\<close>;
  for any other \<open>matchBy\<close> the variable is not bound.
\<close>

definition duplicate_keys ::
  "string \<Rightarrow> (nat option \<times> 'a row) list \<Rightarrow> error + (string + nat option) list" where
  "duplicate_keys matchBy rows =
     (if lower matchBy = ''name'' then Inr (map (\<lambda>mr. Inl (Name (snd mr))) rows)
      else if lower matchBy = ''position'' then Inr (map (\<lambda>mr. Inr (fst mr)) rows)
      else Inl UnboundLocalError)"

subsection \<open>The rename pass\<close>

text \<open>
  The reader makes \<open>Name\<close> a column of strings of 50 characters
  (\<open>converters[nameCol] = [ascii.convert_numpy('S50')]\<close>, tableio.py), and the stacked
  table has the column type of its parts: a string assigned to an entry of the column
  is cut to its first 50 characters.
\<close>

definition S50 :: "string \<Rightarrow> string" where
  "S50 s = take 50 s"

text \<open>
  \<open>names = LSM1.getColValues('Name')\<close> holds the names as they are before the pass;
  \<open>for name in set(names): indx = np.where(names == name)[0];
    if len(indx) > 1: table['Name'][indx[0]] = name + '_1';
                      table['Name'][indx[1]] = name + '_2'\<close>.
  The order in which Python iterates over a set is not fixed: it is the parameter
  \<open>set_iter\<close>, a list of the distinct names.
\<close>

definition rename_one :: "string list \<Rightarrow> string \<Rightarrow> string list \<Rightarrow> string list" where
  "rename_one names name col =
     (case positions name names of
        i0 # i1 # others \<Rightarrow> col[i0 := S50 (name @ ''_1''), i1 := S50 (name @ ''_2'')]
      | _ \<Rightarrow> col)"

definition rename_duplicates :: "(string list \<Rightarrow> string list) \<Rightarrow> string list \<Rightarrow> string list" where
  "rename_duplicates set_iter names = fold (rename_one names) (set_iter names) names"

text \<open>
  The name a row ends with: \<open>_1\<close> and \<open>_2\<close> are appended at the first two
  positions of a name that stands more than once, and the result is cut to the width of
  the column; \<open>old\<close> stays anywhere else.
\<close>

definition renamed :: "string list \<Rightarrow> nat \<Rightarrow> string \<Rightarrow> string" where
  "renamed names i old =
     (case positions (names ! i) names of
        i0 # i1 # others \<Rightarrow>
          if i = i0 then S50 (names ! i @ ''_1'')
          else if i = i1 then S50 (names ! i @ ''_2'') else old
      | _ \<Rightarrow> old)"

definition set_names :: "'a row list \<Rightarrow> string list \<Rightarrow> 'a row list" where
  "set_names rows names = map (\<lambda>rn. (fst rn)\<lparr>Name := snd rn\<rparr>) (zip rows names)"

subsection \<open>The whole operation\<close>

text \<open>
  The table after the stacking, the SpectralIndex column put back and the conflict
  resolution; then the rename pass, which runs whatever \<open>keep\<close> is, and the removal of
  the \<open>match\<close> column. The grouping calls on the two sky models before and after
  (\<open>group\<close>, \<open>ungroup\<close>, \<open>_updateGroups\<close>) belong to the SkyModel class, which
  is not part of the sources: \<open>table1\<close> and \<open>table2\<close> are the two tables as they
  are stacked, and the patch positions are left out.
\<close>

definition merge_resolved ::
  "(real \<times> real \<Rightarrow> real \<times> real \<Rightarrow> real) \<Rightarrow> 'a row list \<Rightarrow> 'a row list \<Rightarrow> string \<Rightarrow> real
     \<Rightarrow> string \<Rightarrow> error + (nat option \<times> 'a row) list" where
  "merge_resolved sep table1 table2 matchBy radius keep =
     (case stack_tables sep table1 table2 matchBy radius of
        Inl e \<Rightarrow> Inl e
      | Inr stacked \<Rightarrow>
          (case add_SpectralIndex
                  (spData_of (map Name table1) (map SpectralIndex table1)
                             (map Name table2) (map SpectralIndex table2)) stacked of
             Inl e \<Rightarrow> Inl e
           | Inr rows \<Rightarrow>
               if keep = ''from1'' \<or> keep = ''from2'' then
                 (case duplicate_keys matchBy rows of
                    Inl e \<Rightarrow> Inl e
                  | Inr vals \<Rightarrow> remove_duplicates keep vals rows)
               else Inr rows))"

definition concatenate ::
  "(string list \<Rightarrow> string list) \<Rightarrow> (real \<times> real \<Rightarrow> real \<times> real \<Rightarrow> real)
     \<Rightarrow> 'a row list \<Rightarrow> 'a row list \<Rightarrow> string \<Rightarrow> real \<Rightarrow> string \<Rightarrow> error + 'a row list" where
  "concatenate set_iter sep table1 table2 matchBy radius keep =
     (case merge_resolved sep table1 table2 matchBy radius keep of
        Inl e \<Rightarrow> Inl e
      | Inr rows \<Rightarrow>
          Inr (set_names (map snd rows) (rename_duplicates set_iter (map (\<lambda>mr. Name (snd mr)) rows))))"

section \<open>Sample tables\<close>

text \<open>The tables on which the model is evaluated below.\<close>

definition source :: "string \<Rightarrow> real \<Rightarrow> real list \<Rightarrow> unit row" where
  "source n ra sp = \<lparr>Name = n, Ra = ra, Dec = 0, SpectralIndex = sp, cols = ()\<rparr>"

definition long_name :: "nat \<Rightarrow> string" where
  "long_name n = replicate n CHR ''X''"

definition patched :: table where
  "patched = \<lparr>table_keys = [''Name'', ''Type'', ''Patch'', ''Ra'', ''Dec''],
              table_rows = [[VStr ''a'', VStr ''POINT'', VStr ''P2'', VNum 15, VNum 1],
                            [VStr ''b'', VStr ''POINT'', VStr ''P1'', VNum 15, VNum 1]],
              table_meta = Map.empty\<rparr>"

definition one_source :: table where
  "one_source = \<lparr>table_keys = [''Name'', ''Type'', ''Ra'', ''Dec'', ''I'', ''SpectralIndex''],
              table_rows = [[VStr ''src1'', VStr ''POINT'', VNum 15, VNum 1, VNum 1, VArr [0]]],
              table_meta = Map.empty\<rparr>"

section \<open>Lemmas about the string operations\<close>


lemma split_on_no_sep: "c \<notin> set s \<Longrightarrow> split_on c s = [s]"
  by (induction s) auto

lemma split_on_append_sep:
  "c \<notin> set a \<Longrightarrow> split_on c (a @ c # b) = a # split_on c b"
  by (induction a) auto

lemma replace_n_zero: "replace_n old new 0 s = s"
  by (cases s) auto

lemma replace_n_prefix:
  "old \<notin> set a \<Longrightarrow> replace_n old new (Suc n) (a @ old # b) = a @ new # replace_n old new n b"
  by (induction a) auto

lemma replace_n_none: "old \<notin> set s \<Longrightarrow> replace_n old new n s = s"
  by (induction old new n s rule: replace_n.induct) auto

lemma set_replace_n_subset: "set (replace_n old new n s) \<subseteq> insert new (set s)"
  by (induction old new n s rule: replace_n.induct) auto

lemma takeWhile_first: "c \<notin> set a \<Longrightarrow> takeWhile (\<lambda>x. x \<noteq> c) (a @ c # b) = a"
  by (induction a) auto

lemma dropWhile_first: "c \<notin> set a \<Longrightarrow> dropWhile (\<lambda>x. x \<noteq> c) (a @ c # b) = c # b"
  by (induction a) auto

lemma takeWhile_none: "c \<notin> set a \<Longrightarrow> takeWhile (\<lambda>x. x \<noteq> c) a = a"
  by (induction a) auto

lemma dropWhile_none: "c \<notin> set a \<Longrightarrow> dropWhile (\<lambda>x. x \<noteq> c) a = []"
  by (induction a) auto

section \<open>Declination parsing\<close>

text \<open>
  On a string without a colon, the element conversion of \<open>Dec2Angle\<close> is the
  two-dot reading: by the number of dots in the string (none, one, at least two).
\<close>

lemma dec_degrees_two_dots:
  assumes "CHR '':'' \<notin> set str"
  shows "dec_degrees pf (PStr str) = spec_parseDec_one pf (PStr str)"
proof (cases "CHR ''.'' \<in> set str")
  case False
  then show ?thesis using assms
    by (simp add: dec_degrees_def spec_parseDec_one_def two_dot_fields_def
        replace_n_none split_on_no_sep dropWhile_none)
next
  case True
  then obtain d r where str: "str = d @ CHR ''.'' # r" and d: "CHR ''.'' \<notin> set d"
    by (meson split_list_first)
  from assms str have cd: "CHR '':'' \<notin> set d" and cr: "CHR '':'' \<notin> set r" by auto
  show ?thesis
  proof (cases "CHR ''.'' \<in> set r")
    case False
    have rep: "replace_n CHR ''.'' CHR '':'' 2 str = d @ CHR '':'' # r"
      using d False by (simp add: str numeral_2_eq_2 replace_n_prefix replace_n_none)
    have spl: "split_on CHR '':'' (d @ CHR '':'' # r) = [d, r]"
      using cd cr by (simp add: split_on_append_sep split_on_no_sep)
    have "dropWhile (\<lambda>c. c \<noteq> CHR ''.'') r = []"
      using False by (rule dropWhile_none)
    then have tdf: "two_dot_fields str = None"
      using d by (simp add: two_dot_fields_def str takeWhile_first dropWhile_first Let_def)
    show ?thesis
      by (simp add: dec_degrees_def spec_parseDec_one_def rep spl tdf)
  next
    case True
    then obtain m s where r: "r = m @ CHR ''.'' # s" and m: "CHR ''.'' \<notin> set m"
      by (meson split_list_first)
    from cr r have cm: "CHR '':'' \<notin> set m" and cs: "CHR '':'' \<notin> set s" by auto
    have rep: "replace_n CHR ''.'' CHR '':'' 2 str = d @ CHR '':'' # m @ CHR '':'' # s"
      using d m by (simp add: str r numeral_2_eq_2 replace_n_prefix replace_n_zero)
    have spl: "split_on CHR '':'' (d @ CHR '':'' # m @ CHR '':'' # s) = [d, m, s]"
      using cd cm cs by (simp add: split_on_append_sep split_on_no_sep)
    have tdf: "two_dot_fields str = Some (d, m, s)"
      using d m by (simp add: two_dot_fields_def str r takeWhile_first dropWhile_first)
    show ?thesis
      by (simp add: dec_degrees_def spec_parseDec_one_def rep spl tdf)
  qed
qed

lemmas sample_float_defs =
  decimal_float_def unsigned_decimal_def digit_val_def strip_def strip_chars_def whitespace_def

text \<open>
  Claim C8. For every batch of declination values whose first element is a string
  (each string in the dotted format, so without a colon of its own), \<open>Dec2Angle\<close>
  treats exactly the first two dots of each string as field separators and returns
  \<open>D + M/60 + S/3600\<close> for the three fields parsed as floats; a later dot stays in the
  seconds field, the minutes and seconds are added whatever the sign of \<open>D\<close>, so the
  sign of the result comes from the degree field alone. A string with fewer than two
  dots, a field that is not a number, or an element that is not a string makes the whole
  batch fail with ``Dec values not understood.''.
\<close>

theorem Dec2Angle_sexagesimal:
  assumes "list_all colon_free (PStr s # rest)"
  shows "Dec2Angle pf Angle (Batch (PStr s # rest)) = spec_parseDec pf (PStr s # rest)"
proof -
  have "dec_degrees pf v = spec_parseDec_one pf v" if "colon_free v" for v
    using that
    by (cases v) (simp_all add: dec_degrees_two_dots, simp add: dec_degrees_def spec_parseDec_one_def)
  then have "map (dec_degrees pf) (PStr s # rest) = map (spec_parseDec_one pf) (PStr s # rest)"
    using assms by (intro map_cong) (auto simp: list_all_iff)
  then show ?thesis
    unfolding Dec2Angle_def spec_parseDec_def
    by (simp only: as_batch.simps list.case pyval.case)
qed

theorem Dec2Angle_sexagesimal_witness:
  "list_all colon_free [PStr ''-01.30.36.0'', PStr ''+12.00.18''] \<and>
   Dec2Angle decimal_float Angle_floats (Batch [PStr ''-01.30.36.0'', PStr ''+12.00.18''])
     = Inr [- 49 / 100, 2401 / 200]"
proof -
  have h: "list_all colon_free [PStr ''-01.30.36.0'', PStr ''+12.00.18'']"
    by simp
  have "spec_parseDec decimal_float [PStr ''-01.30.36.0'', PStr ''+12.00.18'']
          = Inr [- 49 / 100, 2401 / 200]"
    by (simp add: spec_parseDec_def spec_parseDec_one_def two_dot_fields_def sample_float_defs)
  with h Dec2Angle_sexagesimal [OF h, of decimal_float Angle_floats] show ?thesis
    by simp
qed

section \<open>Blank-first-field lines\<close>

text \<open>
  Claim C10. A data line (no header or comment line) whose first comma-separated field is
  blank and which has four or fewer fields is skipped: no row is buffered, no patch
  position is recorded, no error is raised. A blank-first-field line with more than four
  fields is a patch-definition line: it buffers no row and either records the position of
  the patch named in its third field or fails in the angle conversion. A line with a
  non-blank first field is buffered as one row, padded with blank fields to the number of
  columns, and leaves the meta data as they are. The fields are those the loop splits,
  after the rewriting of a bracketed entry.
\<close>

theorem read_line_cases:
  assumes "\<not> is_header_or_comment line"
  shows "(strip (hd (line_fields line)) = [] \<and> length (line_fields line) \<le> 4 \<longrightarrow>
            read_line pf Angle ncols line (metaDict, outlines) = Inr (metaDict, outlines))
       \<and> (strip (hd (line_fields line)) = [] \<and> length (line_fields line) > 4 \<longrightarrow>
            (case read_line pf Angle ncols line (metaDict, outlines) of
               Inl e \<Rightarrow> True
             | Inr (m, out) \<Rightarrow> out = outlines \<and>
                 (\<exists>ra dec. m = metaDict(strip (line_fields line ! 2) \<mapsto> MPatch ra dec))))
       \<and> (strip (hd (line_fields line)) \<noteq> [] \<longrightarrow>
            read_line pf Angle ncols line (metaDict, outlines) =
              Inr (metaDict, outlines @
                [join '','' (line_fields line @ replicate (ncols - length (line_fields line)) '' '')]))"
  using assms
  by (auto simp: read_line_def Let_def split: sum.splits list.splits)

lemmas line_eval_defs =
  is_header_or_comment_def startswith_def line_fields_def rewrite_brackets_def
  strip_def strip_chars_def whitespace_def newline_def

theorem read_line_cases_witness:
  "\<not> is_header_or_comment '' , , patchA''
   \<and> strip (hd (line_fields '' , , patchA'')) = []
   \<and> length (line_fields '' , , patchA'') \<le> 4
   \<and> read_line decimal_float Angle_floats 6 '' , , patchA'' (Map.empty, [''src1, POINT''])
       = Inr (Map.empty, [''src1, POINT''])"
proof -
  have h: "\<not> is_header_or_comment '' , , patchA''"
    by (simp add: line_eval_defs)
  have b: "strip (hd (line_fields '' , , patchA'')) = [] \<and> length (line_fields '' , , patchA'') \<le> 4"
    by (simp add: line_eval_defs)
  from read_line_cases [OF h, of decimal_float Angle_floats 6 Map.empty "[''src1, POINT'']"] b h
  show ?thesis by blast
qed

section \<open>Width of the SpectralIndex column\<close>

lemma fold_maxLen_no_float:
  "list_all (\<lambda>l. \<not> is_float l \<and> \<not> is_int l) col \<Longrightarrow>
     fold (maxLen_step pf) col acc = Max (set (acc # map (coeff_count pf) col))"
proof (induction col arbitrary: acc)
  case Nil
  then show ?case by simp
next
  case (Cons l col)
  have step: "maxLen_step pf l acc = max acc (coeff_count pf l)"
    using Cons.prems
    by (cases l) (auto simp: maxLen_step_def coeff_count_def spec_entry_def split: option.splits)
  have "fold (maxLen_step pf) (l # col) acc
          = Max (set (max acc (coeff_count pf l) # map (coeff_count pf) col))"
    using Cons by (simp add: step)
  also have "\<dots> = Max (set (acc # map (coeff_count pf) (l # col)))"
    by (cases col) (simp_all add: max.assoc)
  finally show ?case .
qed

lemma fold_maxLen_no_str:
  "list_all (\<lambda>l. \<not> is_str l \<and> \<not> is_int l) col \<Longrightarrow>
     fold (maxLen_step pf) col acc = (if list_ex is_float col then 1 else acc)"
proof (induction col arbitrary: acc)
  case Nil
  then show ?case by simp
next
  case (Cons l col)
  then show ?case
    by (cases l) (auto simp: maxLen_step_def spec_entry_def)
qed

lemma coeff_count_no_str:
  "\<not> is_str l \<Longrightarrow> \<not> is_int l \<Longrightarrow> coeff_count pf l = (if is_float l then 1 else 0)"
  by (cases l) (auto simp: coeff_count_def)

lemma Max_counts_no_str:
  "list_all (\<lambda>l. \<not> is_str l \<and> \<not> is_int l) col \<Longrightarrow>
     Max (set (0 # map (coeff_count pf) col)) = (if list_ex is_float col then 1 else 0)"
proof (induction col)
  case Nil
  then show ?case by simp
next
  case (Cons l col)
  then show ?case by (cases col) (auto simp: coeff_count_no_str)
qed

lemma spec_maxLen_is_Max:
  assumes "list_all (\<lambda>l. \<not> is_str l \<and> \<not> is_int l) col
         \<or> list_all (\<lambda>l. \<not> is_float l \<and> \<not> is_int l) col"
  shows "spec_maxLen pf col = Max (set (0 # map (coeff_count pf) col))"
  using assms unfolding spec_maxLen_def
  by (auto simp: fold_maxLen_no_float fold_maxLen_no_str Max_counts_no_str
      simp del: set_simps list.map)

lemma coeff_count_le_maxLen:
  assumes "list_all (\<lambda>l. \<not> is_str l \<and> \<not> is_int l) col
         \<or> list_all (\<lambda>l. \<not> is_float l \<and> \<not> is_int l) col"
    and "l \<in> set col"
  shows "coeff_count pf l \<le> spec_maxLen pf col"
proof -
  have "coeff_count pf l \<in> set (0 # map (coeff_count pf) col)"
    using assms(2) by simp
  then have "coeff_count pf l \<le> Max (set (0 # map (coeff_count pf) col))"
    by (intro Max_ge) auto
  then show ?thesis
    by (simp only: spec_maxLen_is_Max [OF assms(1)])
qed

lemma length_spec_row:
  "\<not> is_int l \<Longrightarrow> coeff_count pf l \<le> n \<Longrightarrow> length (spec_row pf n l) = n"
  by (cases l) (auto simp: spec_row_def coeff_count_def spec_entry_def split: option.splits)

text \<open>
  For a column that the reader typed as floats or as strings, the conversion does what
  claim C2 says: every row's list has the same length, the maximum over the rows of the
  number of coefficients supplied, and a row that supplied fewer is its coefficients
  followed by zeros.
\<close>

lemma convert_spectral_float_or_str_column:
  assumes "one_dtype specOld" and "list_all (\<lambda>l. \<not> is_int l) specOld"
  shows "list_all (\<lambda>r. length r = spec_maxLen pf specOld) (convert_spectral pf specOld)
       \<and> spec_maxLen pf specOld = Max (set (0 # map (coeff_count pf) specOld))
       \<and> length (convert_spectral pf specOld) = length specOld
       \<and> (\<forall>i < length specOld. \<forall>e. spec_entry pf (specOld ! i) = Some e \<longrightarrow>
            convert_spectral pf specOld ! i
              = e @ replicate (spec_maxLen pf specOld - length e) 0)"
proof -
  have ni: "\<not> is_int l" if "l \<in> set specOld" for l
    using assms(2) that by (auto simp: list_all_iff)
  have d: "list_all (\<lambda>l. \<not> is_str l \<and> \<not> is_int l) specOld
         \<or> list_all (\<lambda>l. \<not> is_float l \<and> \<not> is_int l) specOld"
  proof (cases "list_all (\<lambda>l. \<not> is_float l \<and> \<not> is_str l) specOld")
    case True
    then show ?thesis using assms(2) by (auto simp: list_all_iff)
  next
    case False
    then show ?thesis using assms(1) by (simp add: one_dtype_def)
  qed
  have "list_all (\<lambda>r. length r = spec_maxLen pf specOld) (convert_spectral pf specOld)"
    unfolding convert_spectral_def list_all_iff
    using coeff_count_le_maxLen [OF d] ni by (auto simp: length_spec_row)
  moreover have "\<forall>i < length specOld. \<forall>e. spec_entry pf (specOld ! i) = Some e \<longrightarrow>
            convert_spectral pf specOld ! i
              = e @ replicate (spec_maxLen pf specOld - length e) 0"
    by (simp add: convert_spectral_def spec_row_def)
  ultimately show ?thesis
    using spec_maxLen_is_Max [OF d] by (simp add: convert_spectral_def)
qed

text \<open>
  For a column that the reader typed as integers, the first loop never sets \<open>maxLen\<close>
  and every row becomes the empty list, whatever the integers are.
\<close>

lemma fold_maxLen_int_column:
  "list_all (\<lambda>l. \<not> is_float l \<and> \<not> is_str l) col \<Longrightarrow> fold (maxLen_step pf) col acc = acc"
proof (induction col arbitrary: acc)
  case Nil
  then show ?case by simp
next
  case (Cons l col)
  then show ?case
    by (cases l) (auto simp: maxLen_step_def spec_entry_def)
qed

lemma convert_spectral_int_column:
  assumes "one_dtype specOld" and "list_ex is_int specOld"
  shows "convert_spectral pf specOld = map (\<lambda>l. []) specOld"
proof -
  have d: "list_all (\<lambda>l. \<not> is_float l \<and> \<not> is_str l) specOld"
    using assms by (auto simp: one_dtype_def list_all_iff list_ex_iff)
  have m: "spec_maxLen pf specOld = 0"
    unfolding spec_maxLen_def using d by (rule fold_maxLen_int_column)
  have "spec_row pf 0 l = []" if "l \<in> set specOld" for l
    using d that by (cases l) (auto simp: list_all_iff spec_row_def spec_entry_def)
  then show ?thesis
    by (simp add: convert_spectral_def m)
qed

lemmas spectral_eval_defs =
  convert_spectral_def spec_row_def spec_maxLen_def maxLen_step_def spec_entry_def
  coeff_count_def

text \<open>
  Claim C2 fails on a file whose SpectralIndex entries are all written as integers, as
  in the rows \<open>src1, POINT, 01:00:00.0, +01.00.00.0, 1.0, [1]\<close> and
  \<open>src2, POINT, 02:00:00.0, +02.00.00.0, 2.0, [2]\<close>. The fields of the column are
  \<open>1\<close> and \<open>2\<close>, so the reader types the column as integers. Each row supplies one
  coefficient, yet \<open>maxLen\<close> stays 0 and both rows become the empty list: the width
  is 0 and not the maximum coefficient count 1, and the coefficients are lost instead of
  padded. The same file with \<open>[1.0]\<close> and \<open>[2.0]\<close> is read as the claim says.
\<close>

theorem spectral_index_integer_column:
  "line_fields (''src1, POINT, 01:00:00.0, +01.00.00.0, 1.0, [1]'' @ [newline])
     = [''src1'', '' POINT'', '' 01:00:00.0'', '' +01.00.00.0'', '' 1.0'', '' 1'']
   \<and> line_fields (''src2, POINT, 02:00:00.0, +02.00.00.0, 2.0, [2]'' @ [newline])
     = [''src2'', '' POINT'', '' 02:00:00.0'', '' +02.00.00.0'', '' 2.0'', '' 2'']
   \<and> map (coeff_count decimal_float) [CInt 1, CInt 2] = [1, 1]
   \<and> spec_maxLen decimal_float [CInt 1, CInt 2] = 0
   \<and> convert_spectral decimal_float [CInt 1, CInt 2] = [[], []]
   \<and> map (coeff_count decimal_float) [CFloat 1, CFloat 2] = [1, 1]
   \<and> convert_spectral decimal_float [CFloat 1, CFloat 2] = [[1], [2]]"
proof -
  have l1: "line_fields (''src1, POINT, 01:00:00.0, +01.00.00.0, 1.0, [1]'' @ [newline])
     = [''src1'', '' POINT'', '' 01:00:00.0'', '' +01.00.00.0'', '' 1.0'', '' 1'']"
    by (simp add: line_eval_defs)
  have l2: "line_fields (''src2, POINT, 02:00:00.0, +02.00.00.0, 2.0, [2]'' @ [newline])
     = [''src2'', '' POINT'', '' 02:00:00.0'', '' +02.00.00.0'', '' 2.0'', '' 2'']"
    by (simp add: line_eval_defs)
  have n1: "map (coeff_count decimal_float) [CInt 1, CInt 2] = [1, 1]"
    by (simp add: coeff_count_def)
  have m1: "spec_maxLen decimal_float [CInt 1, CInt 2] = 0"
    by (simp add: spectral_eval_defs)
  have c1: "convert_spectral decimal_float [CInt 1, CInt 2] = [[], []]"
    by (simp add: spectral_eval_defs)
  have n2: "map (coeff_count decimal_float) [CFloat 1, CFloat 2] = [1, 1]"
    by (simp add: coeff_count_def)
  have c2: "convert_spectral decimal_float [CFloat 1, CFloat 2] = [[1], [2]]"
    by (simp add: spectral_eval_defs)
  show ?thesis
    by (intro conjI) (rule l1, rule l2, rule n1, rule m1, rule c1, rule n2, rule c2)
qed

section \<open>Re-joining a list default in the header\<close>




























lemmas header_eval_defs =
  header_columns_def fix_colNames_def cnStart_def cnEnd_def opens_list_def closes_list_def
  parse_column_def column_default_def allowedColumnNames_def allowedColumnDefaults_def
  lower_def lower_char_def quote_def




section \<open>Conflict resolution of the merge\<close>

lemma set_positions: "set (positions x xs) = {i. i < length xs \<and> xs ! i = x}"
  by (auto simp: positions_def)

lemma sorted_positions: "sorted_wrt (<) (positions x xs)"
  unfolding positions_def by (intro sorted_wrt_filter) simp

lemma positions_head_least:
  assumes "positions x xs = i0 # rest"
  shows "i0 < length xs \<and> xs ! i0 = x \<and> (\<forall>j < i0. xs ! j \<noteq> x)
       \<and> set rest = {i. i < length xs \<and> xs ! i = x \<and> i0 < i}"
proof -
  have s: "insert i0 (set rest) = {i. i < length xs \<and> xs ! i = x}"
    using set_positions [of x xs] assms by simp
  have lt: "\<forall>j \<in> set rest. i0 < j"
    using sorted_positions [of x xs] assms by simp
  have i0: "i0 < length xs \<and> xs ! i0 = x" using s by blast
  have least: "\<forall>j < i0. xs ! j \<noteq> x"
  proof (intro allI impI notI)
    fix j assume "j < i0" "xs ! j = x"
    then have "j \<in> insert i0 (set rest)" using s i0 by auto
    with lt \<open>j < i0\<close> show False by auto
  qed
  have "set rest = {i. i < length xs \<and> xs ! i = x \<and> i0 < i}"
    using s lt by auto
  with i0 least show ?thesis by blast
qed

lemma set_map_filter_eq:
  "set (List.map_filter g xs) = {y. \<exists>x \<in> set xs. g x = Some y}"
  by (induction xs) (auto split: option.splits)

lemma set_toRemove:
  "set (toRemove keep vals) =
     {x. \<exists>val \<in> set vals. \<exists>i0 i1 others. positions val vals = i0 # i1 # others
           \<and> x = (if keep = ''from1'' then Arr (i1 # others) else Idx i0)}"
proof -
  have "(case positions val vals of
           i0 # i1 # others \<Rightarrow> Some (if keep = ''from1'' then Arr (i1 # others) else Idx i0)
         | _ \<Rightarrow> None) = Some x
        \<longleftrightarrow> (\<exists>i0 i1 others. positions val vals = i0 # i1 # others
               \<and> x = (if keep = ''from1'' then Arr (i1 # others) else Idx i0))"
    for val and x :: index
    by (cases "positions val vals" rule: remdups_adj.cases) auto
  then show ?thesis
    unfolding toRemove_def set_map_filter_eq by simp
qed

lemma in_toRemove:
  "i \<in> set (concat (map index_entries (toRemove keep vals))) \<longleftrightarrow>
     (\<exists>val \<in> set vals. \<exists>i0 i1 others. positions val vals = i0 # i1 # others
        \<and> i \<in> set (if keep = ''from1'' then i1 # others else [i0]))"
proof -
  have "i \<in> set (concat (map index_entries (toRemove keep vals))) \<longleftrightarrow>
          (\<exists>x \<in> set (toRemove keep vals). i \<in> set (index_entries x))"
    by simp
  also have "\<dots> \<longleftrightarrow> (\<exists>val \<in> set vals. \<exists>i0 i1 others. positions val vals = i0 # i1 # others
        \<and> i \<in> set (index_entries (if keep = ''from1'' then Arr (i1 # others) else Idx i0)))"
    unfolding set_toRemove by blast
  also have "\<dots> \<longleftrightarrow> (\<exists>val \<in> set vals. \<exists>i0 i1 others. positions val vals = i0 # i1 # others
        \<and> i \<in> set (if keep = ''from1'' then i1 # others else [i0]))"
    by (cases "keep = ''from1''") simp_all
  finally show ?thesis .
qed

lemma toRemove_from1:
  "i \<in> set (concat (map index_entries (toRemove ''from1'' vals)))
     \<longleftrightarrow> i < length vals \<and> (\<exists>j < i. vals ! j = vals ! i)"
proof
  assume "i \<in> set (concat (map index_entries (toRemove ''from1'' vals)))"
  then obtain val i0 i1 others where
    p: "positions val vals = i0 # i1 # others" and i: "i \<in> set (i1 # others)"
    unfolding in_toRemove by auto
  from positions_head_least [OF p] i show "i < length vals \<and> (\<exists>j < i. vals ! j = vals ! i)"
    by auto
next
  assume a: "i < length vals \<and> (\<exists>j < i. vals ! j = vals ! i)"
  then obtain j where j: "j < i" "vals ! j = vals ! i" by blast
  let ?v = "vals ! i"
  have "i \<in> set (positions ?v vals)" "j \<in> set (positions ?v vals)"
    using a j by (auto simp: set_positions)
  then obtain i0 rest where p: "positions ?v vals = i0 # rest"
    by (cases "positions ?v vals") auto
  from positions_head_least [OF p] j a have "i \<in> set rest"
    by (metis (mono_tags, lifting) dual_order.strict_trans linorder_neqE_nat mem_Collect_eq)
  then obtain i1 others where r: "rest = i1 # others" by (cases rest) auto
  have "?v \<in> set vals" using a by simp
  then show "i \<in> set (concat (map index_entries (toRemove ''from1'' vals)))"
    unfolding in_toRemove using p r \<open>i \<in> set rest\<close> by auto
qed

lemma toRemove_from2:
  "i \<in> set (concat (map index_entries (toRemove ''from2'' vals))) \<longleftrightarrow>
     i < length vals \<and> (\<forall>j < i. vals ! j \<noteq> vals ! i)
     \<and> (\<exists>j < length vals. j \<noteq> i \<and> vals ! j = vals ! i)"
proof
  assume "i \<in> set (concat (map index_entries (toRemove ''from2'' vals)))"
  then obtain val i1 others where
    p: "positions val vals = i # i1 # others"
    unfolding in_toRemove by auto
  from positions_head_least [OF p]
  show "i < length vals \<and> (\<forall>j < i. vals ! j \<noteq> vals ! i)
     \<and> (\<exists>j < length vals. j \<noteq> i \<and> vals ! j = vals ! i)"
    by auto
next
  assume a: "i < length vals \<and> (\<forall>j < i. vals ! j \<noteq> vals ! i)
     \<and> (\<exists>j < length vals. j \<noteq> i \<and> vals ! j = vals ! i)"
  then obtain j where j: "j < length vals" "j \<noteq> i" "vals ! j = vals ! i" by blast
  let ?v = "vals ! i"
  have m: "i \<in> set (positions ?v vals)" "j \<in> set (positions ?v vals)"
    using a j by (auto simp: set_positions)
  then obtain i0 rest where p: "positions ?v vals = i0 # rest"
    by (cases "positions ?v vals") auto
  from positions_head_least [OF p] a m have "i0 = i"
    by (metis linorder_neqE_nat mem_Collect_eq p set_ConsD)
  with p m j obtain i1 others where r: "rest = i1 # others" by (cases rest) auto
  have "?v \<in> set vals" using a by simp
  then show "i \<in> set (concat (map index_entries (toRemove ''from2'' vals)))"
    unfolding in_toRemove using p r \<open>i0 = i\<close> by auto
qed

text \<open>
  The list handed to \<open>remove_rows\<close> makes an index array when its entries have one
  shape. For \<open>from2\<close> they are integers. For \<open>from1\<close> they are arrays, of one length
  exactly when all the keys that stand more than once stand equally often.
\<close>

lemma one_shape_iff:
  "one_shape xs \<longleftrightarrow> (\<forall>x \<in> set xs. \<forall>y \<in> set xs. index_shape x = index_shape y)"
proof (cases xs)
  case Nil
  then show ?thesis by (simp add: one_shape_def)
next
  case (Cons x xs')
  have d: "one_shape (x # xs') \<longleftrightarrow> (\<forall>y \<in> set xs'. index_shape y = index_shape x)"
    by (simp only: one_shape_def list.case list_all_iff)
  have "(\<forall>y \<in> set xs'. index_shape y = index_shape x)
          \<longleftrightarrow> (\<forall>a \<in> set (x # xs'). \<forall>b \<in> set (x # xs'). index_shape a = index_shape b)"
    (is "?L \<longleftrightarrow> ?R")
  proof
    assume l: ?L
    have h: "index_shape a = index_shape x" if "a \<in> set (x # xs')" for a
    proof -
      from that have "a = x \<or> a \<in> set xs'" by simp
      with l show ?thesis by blast
    qed
    show ?R
    proof (intro ballI)
      fix a b
      assume ab: "a \<in> set (x # xs')" "b \<in> set (x # xs')"
      have "index_shape a = index_shape x" by (rule h [OF ab(1)])
      also have "\<dots> = index_shape b" by (rule h [OF ab(2), symmetric])
      finally show "index_shape a = index_shape b" .
    qed
  next
    assume r: ?R
    show ?L
    proof (intro ballI)
      fix y
      assume "y \<in> set xs'"
      then have "y \<in> set (x # xs')" "x \<in> set (x # xs')" by simp_all
      with r show "index_shape y = index_shape x" by blast
    qed
  qed
  with d show ?thesis
    unfolding Cons by (rule trans)
qed

lemma one_shape_from2:
  assumes "keep \<noteq> ''from1''"
  shows "one_shape (toRemove keep vals)"
proof -
  have "index_shape x = None" if "x \<in> set (toRemove keep vals)" for x
    using that assms unfolding set_toRemove by auto
  then show ?thesis
    by (simp add: one_shape_iff)
qed

lemma one_shape_from1:
  "one_shape (toRemove ''from1'' vals) \<longleftrightarrow>
     (\<forall>u \<in> set vals. \<forall>v \<in> set vals.
        1 < length (positions u vals) \<and> 1 < length (positions v vals)
          \<longrightarrow> length (positions u vals) = length (positions v vals))"
proof -
  have m: "x \<in> set (toRemove ''from1'' vals) \<longleftrightarrow>
             (\<exists>val \<in> set vals. 1 < length (positions val vals)
                \<and> x = Arr (tl (positions val vals)))" for x
  proof -
    have "(\<exists>i0 i1 others. positions val vals = i0 # i1 # others \<and> x = Arr (i1 # others))
            \<longleftrightarrow> (1 < length (positions val vals) \<and> x = Arr (tl (positions val vals)))"
      for val
      by (cases "positions val vals" rule: remdups_adj.cases) auto
    then show ?thesis
      unfolding set_toRemove by simp
  qed
  have l: "index_shape (Arr (tl xs)) = index_shape (Arr (tl ys)) \<longleftrightarrow> length xs = length ys"
    if "1 < length xs" "1 < length ys" for xs ys :: "nat list"
    using that by (cases xs; cases ys) auto
  show ?thesis
  proof
    assume o: "one_shape (toRemove ''from1'' vals)"
    show "\<forall>u \<in> set vals. \<forall>v \<in> set vals.
        1 < length (positions u vals) \<and> 1 < length (positions v vals)
          \<longrightarrow> length (positions u vals) = length (positions v vals)"
    proof (intro ballI impI)
      fix u v
      assume uv: "u \<in> set vals" "v \<in> set vals"
        and g: "1 < length (positions u vals) \<and> 1 < length (positions v vals)"
      have "Arr (tl (positions u vals)) \<in> set (toRemove ''from1'' vals)"
           "Arr (tl (positions v vals)) \<in> set (toRemove ''from1'' vals)"
        unfolding m using uv g by blast+
      with o have "index_shape (Arr (tl (positions u vals)))
                     = index_shape (Arr (tl (positions v vals)))"
        unfolding one_shape_iff by blast
      with g show "length (positions u vals) = length (positions v vals)"
        by (simp only: l)
    qed
  next
    assume a: "\<forall>u \<in> set vals. \<forall>v \<in> set vals.
        1 < length (positions u vals) \<and> 1 < length (positions v vals)
          \<longrightarrow> length (positions u vals) = length (positions v vals)"
    show "one_shape (toRemove ''from1'' vals)"
      unfolding one_shape_iff
    proof (intro ballI)
      fix x y
      assume "x \<in> set (toRemove ''from1'' vals)" "y \<in> set (toRemove ''from1'' vals)"
      then obtain u v where
        u: "u \<in> set vals" "1 < length (positions u vals)" "x = Arr (tl (positions u vals))" and
        v: "v \<in> set vals" "1 < length (positions v vals)" "y = Arr (tl (positions v vals))"
        unfolding m by blast
      from a u v have "length (positions u vals) = length (positions v vals)"
        by blast
      then show "index_shape x = index_shape y"
        unfolding u(3) v(3) using u(2) v(2) by (simp only: l)
    qed
  qed
qed

lemma filter_enumerate_nths:
  "(\<forall>i < length rows. i \<notin> S \<longleftrightarrow> i \<in> A) \<Longrightarrow>
     map snd (filter (\<lambda>ir. fst ir \<notin> S) (enumerate 0 rows)) = nths rows A"
proof (induction rows rule: rev_induct)
  case Nil
  then show ?case by simp
next
  case (snoc r rows)
  then have "map snd (filter (\<lambda>ir. fst ir \<notin> S) (enumerate 0 rows)) = nths rows A" by simp
  moreover have "length rows \<notin> S \<longleftrightarrow> length rows \<in> A"
    using snoc.prems by simp
  ultimately show ?case
    by (auto simp: enumerate_append_eq nths_append)
qed

lemma remove_rows_nths:
  assumes "one_shape row_specifier"
    and "\<forall>i \<in> set (concat (map index_entries row_specifier)). i < length rows"
    and "\<forall>i < length rows. i \<notin> set (concat (map index_entries row_specifier)) \<longleftrightarrow> i \<in> A"
  shows "remove_rows row_specifier rows = Inr (nths rows A)"
proof -
  have "\<not> list_ex (\<lambda>i. length rows \<le> i) (concat (map index_entries row_specifier))"
    unfolding list_ex_iff using assms(2) by (meson not_le)
  then show ?thesis
    unfolding remove_rows_def Let_def
    using assms(1) filter_enumerate_nths [OF assms(3)] by simp
qed

text \<open>
  Where \<open>remove_rows\<close> gets an index array, the conflict resolution does what claim C5
  says: \<open>from1\<close> keeps, of the rows with the same duplicate key, exactly the first one
  (a row stays iff no earlier row has its key); \<open>from2\<close> removes exactly the first row
  of every key that stands more than once, whatever the size of the group; \<open>all\<close>
  removes no row. \<open>nths rows A\<close> is the list of the rows at the indices in \<open>A\<close>.
  For \<open>from1\<close> it gets none when two keys stand more than once and not equally often.
\<close>

lemma remove_duplicates_cases:
  assumes "length vals = length rows"
  shows "remove_duplicates ''from1'' vals rows =
           (if one_shape (toRemove ''from1'' vals)
            then Inr (nths rows {i. \<forall>j < i. vals ! j \<noteq> vals ! i})
            else Inl ValueError)
       \<and> remove_duplicates ''from2'' vals rows =
           Inr (nths rows {i. (\<exists>j < i. vals ! j = vals ! i)
                            \<or> (\<forall>j < length vals. j \<noteq> i \<longrightarrow> vals ! j \<noteq> vals ! i)})
       \<and> remove_duplicates ''all'' vals rows = Inr rows"
proof -
  have "remove_duplicates ''from1'' vals rows =
           Inr (nths rows {i. \<forall>j < i. vals ! j \<noteq> vals ! i})"
    if "one_shape (toRemove ''from1'' vals)"
  proof -
    have "remove_rows (toRemove ''from1'' vals) rows =
            Inr (nths rows {i. \<forall>j < i. vals ! j \<noteq> vals ! i})"
    proof (rule remove_rows_nths [OF that])
      show "\<forall>i \<in> set (concat (map index_entries (toRemove ''from1'' vals))). i < length rows"
      proof
        fix i
        assume "i \<in> set (concat (map index_entries (toRemove ''from1'' vals)))"
        then have "i < length vals" unfolding toRemove_from1 by simp
        then show "i < length rows" using assms by simp
      qed
      show "\<forall>i < length rows. i \<notin> set (concat (map index_entries (toRemove ''from1'' vals)))
              \<longleftrightarrow> i \<in> {i. \<forall>j < i. vals ! j \<noteq> vals ! i}"
        unfolding toRemove_from1 using assms by auto
    qed
    then show ?thesis by (simp add: remove_duplicates_def)
  qed
  moreover have "remove_duplicates ''from1'' vals rows = Inl ValueError"
    if "\<not> one_shape (toRemove ''from1'' vals)"
    using that by (simp add: remove_duplicates_def remove_rows_def)
  moreover have "remove_duplicates ''from2'' vals rows =
           Inr (nths rows {i. (\<exists>j < i. vals ! j = vals ! i)
                            \<or> (\<forall>j < length vals. j \<noteq> i \<longrightarrow> vals ! j \<noteq> vals ! i)})"
  proof -
    have o: "one_shape (toRemove ''from2'' vals)"
      by (rule one_shape_from2) simp
    have "remove_rows (toRemove ''from2'' vals) rows =
            Inr (nths rows {i. (\<exists>j < i. vals ! j = vals ! i)
                            \<or> (\<forall>j < length vals. j \<noteq> i \<longrightarrow> vals ! j \<noteq> vals ! i)})"
    proof (rule remove_rows_nths [OF o])
      show "\<forall>i \<in> set (concat (map index_entries (toRemove ''from2'' vals))). i < length rows"
      proof
        fix i
        assume "i \<in> set (concat (map index_entries (toRemove ''from2'' vals)))"
        then have "i < length vals" unfolding toRemove_from2 by simp
        then show "i < length rows" using assms by simp
      qed
      show "\<forall>i < length rows. i \<notin> set (concat (map index_entries (toRemove ''from2'' vals)))
              \<longleftrightarrow> i \<in> {i. (\<exists>j < i. vals ! j = vals ! i)
                            \<or> (\<forall>j < length vals. j \<noteq> i \<longrightarrow> vals ! j \<noteq> vals ! i)}"
        unfolding toRemove_from2 using assms by auto
    qed
    then show ?thesis by (simp add: remove_duplicates_def)
  qed
  moreover have "remove_duplicates ''all'' vals rows = Inr rows"
    by (simp add: remove_duplicates_def)
  ultimately show ?thesis by simp
qed

lemmas merge_eval_defs =
  concatenate_def merge_resolved_def stack_tables_def spData_of_def positions_def
  remove_duplicates_def duplicate_keys_def toRemove_def remove_rows_def one_shape_def
  List.map_filter_simps rename_duplicates_def rename_one_def set_names_def
  remove_SpectralIndex_def lower_def lower_char_def

text \<open>
  Claim C5 fails for \<open>keep = from1\<close> on catalogs in which two keys stand more than once
  and not equally often: catalog 1 with the rows \<open>A\<close>, \<open>A\<close>, \<open>B\<close> and catalog 2 with
  the rows \<open>A\<close>, \<open>B\<close>, matched by name. The stacked names are \<open>A, A, B, A, B\<close>;
  the loop appends the array \<open>[1, 3]\<close> for every \<open>A\<close> and the array \<open>[4]\<close> for every
  \<open>B\<close>; \<open>remove_rows\<close> raises on the list and no table is merged, where the claim
  keeps the first \<open>A\<close> and the first \<open>B\<close>. On the same catalogs \<open>from2\<close> removes the
  first \<open>A\<close> and the first \<open>B\<close> and \<open>all\<close> removes nothing, and \<open>from1\<close> keeps
  the first row where every name stands twice.
\<close>

theorem conflict_resolution_from1_raises:
  "toRemove ''from1'' [''A'', ''A'', ''B'', ''A'', ''B'']
     = [Arr [1, 3], Arr [1, 3], Arr [4], Arr [1, 3], Arr [4]]
   \<and> merge_resolved great_circle
       [source ''A'' 10 [1, 2], source ''A'' 20 [3, 4], source ''B'' 30 [5, 6]]
       [source ''A'' 40 [7, 8], source ''B'' 50 [9, 10]] ''name'' (1 / 10) ''from1''
     = Inl ValueError
   \<and> concatenate remdups great_circle
       [source ''A'' 10 [1, 2], source ''A'' 20 [3, 4], source ''B'' 30 [5, 6]]
       [source ''A'' 40 [7, 8], source ''B'' 50 [9, 10]] ''name'' (1 / 10) ''from1''
     = Inl ValueError
   \<and> merge_resolved great_circle
       [source ''A'' 10 [1, 2], source ''A'' 20 [3, 4], source ''B'' 30 [5, 6]]
       [source ''A'' 40 [7, 8], source ''B'' 50 [9, 10]] ''name'' (1 / 10) ''from2''
     = Inr [(None, source ''A'' 20 [7, 8]), (None, source ''A'' 40 [7, 8]),
            (None, source ''B'' 50 [9, 10])]
   \<and> merge_resolved great_circle
       [source ''A'' 10 [1, 2], source ''A'' 20 [3, 4], source ''B'' 30 [5, 6]]
       [source ''A'' 40 [7, 8], source ''B'' 50 [9, 10]] ''name'' (1 / 10) ''all''
     = Inr [(None, source ''A'' 10 [7, 8]), (None, source ''A'' 20 [7, 8]),
            (None, source ''B'' 30 [9, 10]), (None, source ''A'' 40 [7, 8]),
            (None, source ''B'' 50 [9, 10])]
   \<and> merge_resolved great_circle
       [source ''A'' 10 [1, 2], source ''B'' 30 [5, 6]]
       [source ''A'' 40 [7, 8], source ''B'' 50 [9, 10]] ''name'' (1 / 10) ''from1''
     = Inr [(None, source ''A'' 10 [7, 8]), (None, source ''B'' 30 [9, 10])]"
proof -
  have t: "toRemove ''from1'' [''A'', ''A'', ''B'', ''A'', ''B'']
     = [Arr [1, 3], Arr [1, 3], Arr [4], Arr [1, 3], Arr [4]]"
    by (simp add: toRemove_def positions_def List.map_filter_simps upt_rec)
  have m1: "merge_resolved great_circle
       [source ''A'' 10 [1, 2], source ''A'' 20 [3, 4], source ''B'' 30 [5, 6]]
       [source ''A'' 40 [7, 8], source ''B'' 50 [9, 10]] ''name'' (1 / 10) ''from1''
     = Inl ValueError"
    by (simp add: merge_eval_defs upt_rec source_def)
  have c1: "concatenate remdups great_circle
       [source ''A'' 10 [1, 2], source ''A'' 20 [3, 4], source ''B'' 30 [5, 6]]
       [source ''A'' 40 [7, 8], source ''B'' 50 [9, 10]] ''name'' (1 / 10) ''from1''
     = Inl ValueError"
    by (simp add: concatenate_def m1)
  have m2: "merge_resolved great_circle
       [source ''A'' 10 [1, 2], source ''A'' 20 [3, 4], source ''B'' 30 [5, 6]]
       [source ''A'' 40 [7, 8], source ''B'' 50 [9, 10]] ''name'' (1 / 10) ''from2''
     = Inr [(None, source ''A'' 20 [7, 8]), (None, source ''A'' 40 [7, 8]),
            (None, source ''B'' 50 [9, 10])]"
    by (simp add: merge_eval_defs upt_rec source_def)
  have m3: "merge_resolved great_circle
       [source ''A'' 10 [1, 2], source ''A'' 20 [3, 4], source ''B'' 30 [5, 6]]
       [source ''A'' 40 [7, 8], source ''B'' 50 [9, 10]] ''name'' (1 / 10) ''all''
     = Inr [(None, source ''A'' 10 [7, 8]), (None, source ''A'' 20 [7, 8]),
            (None, source ''B'' 30 [9, 10]), (None, source ''A'' 40 [7, 8]),
            (None, source ''B'' 50 [9, 10])]"
    by (simp add: merge_eval_defs upt_rec source_def)
  have m4: "merge_resolved great_circle
       [source ''A'' 10 [1, 2], source ''B'' 30 [5, 6]]
       [source ''A'' 40 [7, 8], source ''B'' 50 [9, 10]] ''name'' (1 / 10) ''from1''
     = Inr [(None, source ''A'' 10 [7, 8]), (None, source ''B'' 30 [9, 10])]"
    by (simp add: merge_eval_defs upt_rec source_def)
  show ?thesis
    by (intro conjI) (rule t, rule m1, rule c1, rule m2, rule m3, rule m4)
qed

section \<open>The rename pass of the merge\<close>

lemma length_rename_one: "length (rename_one names name col) = length col"
  by (simp add: rename_one_def split: list.splits)

lemma rename_one_nth:
  assumes "length col = length names" and "i < length names"
  shows "rename_one names name col ! i
           = (if names ! i = name then renamed names i (col ! i) else col ! i)"
proof (cases "positions name names" rule: remdups_adj.cases)
  case 1
  then show ?thesis by (simp add: rename_one_def renamed_def)
next
  case (2 i0)
  then show ?thesis by (simp add: rename_one_def renamed_def)
next
  case (3 i0 i1 others)
  have m: "i0 \<in> set (positions name names)" "i1 \<in> set (positions name names)"
    using 3 by simp_all
  then have b: "i0 < length names" "i1 < length names" "names ! i0 = name" "names ! i1 = name"
    by (simp_all add: set_positions)
  have ne: "i0 < i1"
    using sorted_positions [of name names] 3 by simp
  show ?thesis
    using 3 b ne assms by (auto simp: rename_one_def renamed_def nth_list_update)
qed

lemma fold_rename_one_nth:
  assumes "distinct order" and "length col = length names" and "i < length names"
  shows "length (fold (rename_one names) order col) = length names
       \<and> fold (rename_one names) order col ! i
           = (if names ! i \<in> set order then renamed names i (col ! i) else col ! i)"
  using assms
proof (induction order arbitrary: col)
  case Nil
  then show ?case by simp
next
  case (Cons a order)
  have l: "length (rename_one names a col) = length names"
    using Cons.prems by (simp add: length_rename_one)
  have d: "distinct order" "a \<notin> set order" using Cons.prems by simp_all
  from Cons.IH [OF d(1) l Cons.prems(3)] d(2) Cons.prems
  show ?case
    by (auto simp: rename_one_nth)
qed

lemma map_Name_set_names:
  "length names = length rows \<Longrightarrow> map Name (set_names rows names) = names"
  unfolding set_names_def
  by (induction rows names rule: list_induct2') auto

lemma rename_duplicates_nth:
  assumes "distinct (set_iter names)" and "set (set_iter names) = set names"
  shows "length (rename_duplicates set_iter names) = length names
       \<and> (\<forall>i < length names.
            rename_duplicates set_iter names ! i = renamed names i (names ! i))"
proof (cases "names = []")
  case True
  then show ?thesis using assms by (simp add: rename_duplicates_def)
next
  case False
  then obtain i where "i < length names" by (cases names) auto
  from fold_rename_one_nth [OF assms(1) refl this]
  have len: "length (rename_duplicates set_iter names) = length names"
    by (simp add: rename_duplicates_def)
  have "rename_duplicates set_iter names ! i = renamed names i (names ! i)"
    if "i < length names" for i
    using fold_rename_one_nth [OF assms(1) refl that] that assms(2)
    by (simp add: rename_duplicates_def)
  with len show ?thesis by simp
qed

text \<open>
  The rename pass runs after the conflict resolution whatever \<open>keep\<close> is: where the
  merge has a resolved table, the result has the same number of rows, and row \<open>i\<close> is
  named by the first 50 characters of \<open>name_1\<close> when it is the first row of a name that
  still stands more than once, of \<open>name_2\<close> when it is the second, and keeps its name
  otherwise (a third or later occurrence, a name that stands once). For a name of at most
  48 characters these are \<open>name_1\<close> and \<open>name_2\<close> themselves.
\<close>

lemma rename_pass_fixed_width:
  assumes "merge_resolved sep table1 table2 matchBy radius keep = Inr resolved"
    and "names = map (\<lambda>mr. Name (snd mr)) resolved"
    and "distinct (set_iter names)" and "set (set_iter names) = set names"
  shows "\<exists>out. concatenate set_iter sep table1 table2 matchBy radius keep = Inr out
           \<and> length out = length names
           \<and> (\<forall>i < length names.
                 Name (out ! i) =
                   (case positions (names ! i) names of
                      i0 # i1 # others \<Rightarrow>
                        if i = i0 then S50 (names ! i @ ''_1'')
                        else if i = i1 then S50 (names ! i @ ''_2'') else names ! i
                    | _ \<Rightarrow> names ! i))"
proof -
  let ?new = "rename_duplicates set_iter names"
  let ?out = "set_names (map snd resolved) ?new"
  note r = rename_duplicates_nth [of set_iter names, OF assms(3,4)]
  have c: "concatenate set_iter sep table1 table2 matchBy radius keep = Inr ?out"
    by (simp add: concatenate_def assms(1,2))
  have l: "length ?new = length (map snd resolved)"
    using r by (simp add: assms(2))
  have n: "map Name ?out = ?new"
    using l by (rule map_Name_set_names)
  then have lo: "length ?out = length names"
    using r by (metis length_map)
  have "Name (?out ! i) = renamed names i (names ! i)" if "i < length names" for i
  proof -
    have "Name (?out ! i) = map Name ?out ! i"
      using that lo by simp
    then show ?thesis using n r that by simp
  qed
  with c lo show ?thesis
    by (auto simp: renamed_def)
qed

lemma S50_short:
  "length name \<le> 48 \<Longrightarrow> S50 (name @ ''_1'') = name @ ''_1'' \<and> S50 (name @ ''_2'') = name @ ''_2''"
  by (simp add: S50_def)

lemma S50_long_name:
  "S50 (long_name 50 @ ''_1'') = long_name 50" "S50 (long_name 50 @ ''_2'') = long_name 50"
  "S50 (long_name 49 @ ''_1'') = long_name 49 @ ''_''"
  "S50 (long_name 49 @ ''_2'') = long_name 49 @ ''_''"
  by (simp_all add: S50_def long_name_def)

lemmas rename_eval_defs =
  concatenate_def merge_resolved_def stack_tables_def spData_of_def positions_def
  rename_duplicates_def rename_one_def set_names_def remove_SpectralIndex_def
  lower_def lower_char_def

text \<open>
  Claim C6 fails on names that fill the \<open>Name\<close> column. Two catalogs that each hold
  one row whose name is the same 50 characters, merged with \<open>keep = all\<close>: the entries
  assigned are cut to 50 characters, so both rows keep the bare name and no \<open>_1\<close> or
  \<open>_2\<close> is seen. With a common name of 49 characters both rows are renamed to the
  name followed by \<open>_\<close>, again one name for two rows. For the name \<open>X\<close> of the
  claim the rows are \<open>X_1\<close> and \<open>X_2\<close>.
\<close>

theorem rename_pass_long_names:
  "length (long_name 50) = 50
   \<and> concatenate remdups great_circle [source (long_name 50) 10 [1, 2]]
       [source (long_name 50) 20 [3, 4]] ''name'' (1 / 10) ''all''
     = Inr [source (long_name 50) 10 [3, 4], source (long_name 50) 20 [3, 4]]
   \<and> concatenate remdups great_circle [source (long_name 49) 10 [1, 2]]
       [source (long_name 49) 20 [3, 4]] ''name'' (1 / 10) ''all''
     = Inr [source (long_name 49 @ ''_'') 10 [3, 4], source (long_name 49 @ ''_'') 20 [3, 4]]
   \<and> concatenate remdups great_circle [source ''X'' 10 [1, 2]]
       [source ''X'' 20 [3, 4]] ''name'' (1 / 10) ''all''
     = Inr [source ''X_1'' 10 [3, 4], source ''X_2'' 20 [3, 4]]"
proof -
  have l: "length (long_name 50) = 50"
    by (simp add: long_name_def)
  have c50: "concatenate remdups great_circle [source (long_name 50) 10 [1, 2]]
       [source (long_name 50) 20 [3, 4]] ''name'' (1 / 10) ''all''
     = Inr [source (long_name 50) 10 [3, 4], source (long_name 50) 20 [3, 4]]"
    by (simp add: rename_eval_defs S50_long_name upt_rec source_def)
  have c49: "concatenate remdups great_circle [source (long_name 49) 10 [1, 2]]
       [source (long_name 49) 20 [3, 4]] ''name'' (1 / 10) ''all''
     = Inr [source (long_name 49 @ ''_'') 10 [3, 4], source (long_name 49 @ ''_'') 20 [3, 4]]"
    by (simp add: rename_eval_defs S50_long_name upt_rec source_def)
  have c1: "concatenate remdups great_circle [source ''X'' 10 [1, 2]]
       [source ''X'' 20 [3, 4]] ''name'' (1 / 10) ''all''
     = Inr [source ''X_1'' 10 [3, 4], source ''X_2'' 20 [3, 4]]"
    by (simp add: rename_eval_defs S50_def upt_rec source_def)
  show ?thesis
    by (intro conjI) (rule l, rule c50, rule c49, rule c1)
qed

section \<open>Matching by position\<close>

lemma nearest_props:
  "snd (nearest d j qs best) \<le> snd best
   \<and> (\<forall>k < length qs. snd (nearest d j qs best) \<le> d (qs ! k))
   \<and> (nearest d j qs best = best
        \<or> (\<exists>k < length qs. nearest d j qs best = (j + k, d (qs ! k))))"
proof (induction qs arbitrary: j best)
  case Nil
  then show ?case by simp
next
  case (Cons q qs)
  let ?b = "if d q < snd best then (j, d q) else best"
  note ih = Cons.IH [of "Suc j" ?b]
  have 1: "snd (nearest d j (q # qs) best) \<le> snd best"
    using ih by (auto split: if_splits)
  have 2: "\<forall>k < length (q # qs). snd (nearest d j (q # qs) best) \<le> d ((q # qs) ! k)"
  proof (intro allI impI)
    fix k assume "k < length (q # qs)"
    then show "snd (nearest d j (q # qs) best) \<le> d ((q # qs) ! k)"
      using ih by (cases k) (auto split: if_splits)
  qed
  have 3: "nearest d j (q # qs) best = best
        \<or> (\<exists>k < length (q # qs). nearest d j (q # qs) best = (j + k, d ((q # qs) ! k)))"
  proof -
    from ih consider "nearest d (Suc j) qs ?b = ?b"
      | k where "k < length qs" "nearest d (Suc j) qs ?b = (Suc j + k, d (qs ! k))"
      by blast
    then show ?thesis
    proof cases
      case 1
      then show ?thesis
        by (cases "d q < snd best") (auto intro: exI [of _ 0])
    next
      case (2 k)
      then show ?thesis
        by (auto intro!: exI [of _ "Suc k"])
    qed
  qed
  from 1 2 3 show ?case by blast
qed

lemma match_to_catalog_sky_nearest:
  assumes "match_to_catalog_sky sep catalog1 catalog2 = Inr idx_d2d"
  shows "length idx_d2d = length catalog1
       \<and> (\<forall>i < length catalog1.
             fst (idx_d2d ! i) < length catalog2
           \<and> snd (idx_d2d ! i) = sep (catalog1 ! i) (catalog2 ! fst (idx_d2d ! i))
           \<and> (\<forall>k < length catalog2. snd (idx_d2d ! i) \<le> sep (catalog1 ! i) (catalog2 ! k)))"
proof -
  from assms obtain q qs where c2: "catalog2 = q # qs"
    and idx: "idx_d2d = map (\<lambda>p. nearest (sep p) 1 qs (0, sep p q)) catalog1"
    by (auto simp: match_to_catalog_sky_def split: list.splits)
  have "fst (idx_d2d ! i) < length catalog2
           \<and> snd (idx_d2d ! i) = sep (catalog1 ! i) (catalog2 ! fst (idx_d2d ! i))
           \<and> (\<forall>k < length catalog2. snd (idx_d2d ! i) \<le> sep (catalog1 ! i) (catalog2 ! k))"
    if "i < length catalog1" for i
  proof -
    let ?p = "catalog1 ! i"
    let ?r = "nearest (sep ?p) 1 qs (0, sep ?p q)"
    have r: "idx_d2d ! i = ?r" using that by (simp add: idx)
    note np = nearest_props [of "sep ?p" 1 qs "(0, sep ?p q)"]
    have a: "fst ?r < length catalog2 \<and> snd ?r = sep ?p (catalog2 ! fst ?r)"
      using np by (auto simp: c2)
    have b: "\<forall>k < length catalog2. snd ?r \<le> sep ?p (catalog2 ! k)"
    proof (intro allI impI)
      fix k assume "k < length catalog2"
      then show "snd ?r \<le> sep ?p (catalog2 ! k)"
        using np by (cases k) (auto simp: c2)
    qed
    from a b show ?thesis by (simp only: r) 
  qed
  moreover have "length idx_d2d = length catalog1" by (simp add: idx)
  ultimately show ?thesis by blast
qed

lemma fold_assign:
  "length (fold (\<lambda>i col. col[f i := g i]) is col) = length col
   \<and> (j < length col \<longrightarrow>
        (if \<exists>i \<in> set is. f i = j
         then \<exists>i \<in> set is. f i = j \<and> fold (\<lambda>i col. col[f i := g i]) is col ! j = g i
         else fold (\<lambda>i col. col[f i := g i]) is col ! j = col ! j))"
proof (induction "is" arbitrary: col)
  case Nil
  then show ?case by simp
next
  case (Cons i "is")
  from Cons.IH [of "col[f i := g i]"] show ?case
    by (auto simp: nth_list_update split: if_splits)
qed

lemma great_circle_equator:
  assumes "\<bar>a - b\<bar> \<le> 180"
  shows "great_circle (a, 0) (b, 0) = \<bar>a - b\<bar>"
proof -
  let ?x = "a * pi / 180 - b * pi / 180"
  have x: "?x = (a - b) * pi / 180" by (simp add: algebra_simps diff_divide_distrib)
  have gc: "great_circle (a, 0) (b, 0) = arccos (cos ?x) * 180 / pi"
    by (simp add: great_circle_def)
  show ?thesis
  proof (cases "b \<le> a")
    case True
    then have "(a - b) * pi \<le> 180 * pi"
      using assms by (intro mult_right_mono) auto
    with True have "0 \<le> ?x" "?x \<le> pi"
      by (simp_all add: x divide_le_eq le_divide_eq algebra_simps)
    then have "arccos (cos ?x) = ?x" by (rule arccos_cos)
    then show ?thesis using True by (simp add: gc x)
  next
    case False
    then have "(b - a) * pi \<le> 180 * pi"
      using assms by (intro mult_right_mono) auto
    with False have "?x \<le> 0" "- pi \<le> ?x"
      by (simp_all add: x divide_le_eq le_divide_eq mult_le_0_iff algebra_simps)
    then have "arccos (cos ?x) = - ?x" by (rule arccos_cos2)
    then show ?thesis using False by (simp add: gc x)
  qed
qed

text \<open>
  Claim C1, as the code has it. When merging with \<open>matchBy = position\<close>, catalog 1
  queries catalog 2: for every row of catalog 1 the nearest row of catalog 2 under the
  separation is found. The rows of catalog 1 have the ids \<open>0 .. n1 - 1\<close>. A row \<open>j\<close>
  of catalog 2 that is the nearest row of some row of catalog 1 at a separation of at
  most the radius has the id of such a row of catalog 1; any other row of catalog 2 keeps
  its own id \<open>n1 + j\<close>. So two rows of catalog 1 may match the same row of catalog 2,
  which then shares the id of one of them, and no two rows of catalog 2 have the same id.
\<close>

theorem position_match_one_sided:
  assumes m: "match_to_catalog_sky sep catalog1 catalog2 = Inr idx_d2d"
  shows "(\<forall>i < length catalog1.
             fst (idx_d2d ! i) < length catalog2
           \<and> snd (idx_d2d ! i) = sep (catalog1 ! i) (catalog2 ! fst (idx_d2d ! i))
           \<and> (\<forall>k < length catalog2. snd (idx_d2d ! i) \<le> sep (catalog1 ! i) (catalog2 ! k)))
       \<and> (\<exists>matchCol2.
             position_match sep catalog1 catalog2 radius = Inr ([0..<length catalog1], matchCol2)
           \<and> length matchCol2 = length catalog2
           \<and> distinct matchCol2
           \<and> (\<forall>j < length catalog2.
                 if \<exists>i < length catalog1. fst (idx_d2d ! i) = j \<and> snd (idx_d2d ! i) \<le> radius
                 then matchCol2 ! j < length catalog1
                    \<and> fst (idx_d2d ! (matchCol2 ! j)) = j
                    \<and> snd (idx_d2d ! (matchCol2 ! j)) \<le> radius
                 else matchCol2 ! j = length catalog1 + j))"
proof -
  let ?n1 = "length catalog1" and ?n2 = "length catalog2"
  note nn = match_to_catalog_sky_nearest [OF m]
  then have len: "length idx_d2d = ?n1" by blast
  let ?matches = "filter (\<lambda>i. snd (idx_d2d ! i) \<le> radius) [0..<?n1]"
  let ?init = "map (\<lambda>j. j + ?n1) [0..<?n2]"
  let ?m2 = "fold (\<lambda>i col. col[fst (idx_d2d ! i) := [0..<?n1] ! i]) ?matches ?init"
  have pm: "position_match sep catalog1 catalog2 radius = Inr ([0..<?n1], ?m2)"
    by (simp add: position_match_def m match_columns_def len Let_def)
  note fa = fold_assign [of "\<lambda>i. fst (idx_d2d ! i)" "\<lambda>i. [0..<?n1] ! i" ?matches ?init]
  have l2: "length ?m2 = ?n2" using fa by simp
  have ids: "if \<exists>i < ?n1. fst (idx_d2d ! i) = j \<and> snd (idx_d2d ! i) \<le> radius
                 then ?m2 ! j < ?n1
                    \<and> fst (idx_d2d ! (?m2 ! j)) = j
                    \<and> snd (idx_d2d ! (?m2 ! j)) \<le> radius
                 else ?m2 ! j = ?n1 + j" if "j < ?n2" for j
  proof (cases "\<exists>i < ?n1. fst (idx_d2d ! i) = j \<and> snd (idx_d2d ! i) \<le> radius")
    case True
    then have "\<exists>i \<in> set ?matches. fst (idx_d2d ! i) = j" by auto
    with fa [of j] that obtain i where
      "i \<in> set ?matches" "fst (idx_d2d ! i) = j" "?m2 ! j = [0..<?n1] ! i"
      by auto
    then show ?thesis using True by auto
  next
    case False
    then have "\<not> (\<exists>i \<in> set ?matches. fst (idx_d2d ! i) = j)" by auto
    with fa [of j] that have "?m2 ! j = ?init ! j" by auto
    then show ?thesis using False that by (simp add: add.commute)
  qed
  have dist: "distinct ?m2"
    unfolding distinct_conv_nth l2
  proof (intro allI impI)
    fix j k assume jk: "j < ?n2" "k < ?n2" "j \<noteq> k"
    from ids [OF jk(1)] ids [OF jk(2)] jk(3)
    show "?m2 ! j \<noteq> ?m2 ! k"
      by (auto split: if_splits)
  qed
  from nn pm l2 dist ids show ?thesis by blast
qed

theorem position_match_one_sided_witness:
  "match_to_catalog_sky great_circle [(10, 0), (10003 / 1000, 0)] [(10001 / 1000, 0), (21 / 2, 0)]
     = Inr [(0, 1 / 1000), (0, 2 / 1000)]
   \<and> position_match great_circle [(10, 0), (10003 / 1000, 0)] [(10001 / 1000, 0), (21 / 2, 0)]
        (1 / 100) = Inr ([0, 1], [1, 3])
   \<and> (\<exists>matchCol2.
         position_match great_circle [(10, 0), (10003 / 1000, 0)] [(10001 / 1000, 0), (21 / 2, 0)]
            (1 / 100) = Inr ([0..<length [(10, 0), (10003 / 1000, 0 :: real)]], matchCol2)
       \<and> length matchCol2 = 2 \<and> distinct matchCol2)"
proof -
  have a: "great_circle (10, 0) (10001 / 1000, 0) = 1 / 1000"
    using great_circle_equator [of 10 "10001 / 1000"] by simp
  have b: "great_circle (10, 0) (21 / 2, 0) = 1 / 2"
    using great_circle_equator [of 10 "21 / 2"] by simp
  have c: "great_circle (10003 / 1000, 0) (10001 / 1000, 0) = 2 / 1000"
    using great_circle_equator [of "10003 / 1000" "10001 / 1000"] by simp
  have d: "great_circle (10003 / 1000, 0) (21 / 2, 0) = 497 / 1000"
    using great_circle_equator [of "10003 / 1000" "21 / 2"] by simp
  have u: "[0..<2] = [0, Suc 0]"
    by (simp add: upt_rec)
  have m: "match_to_catalog_sky great_circle [(10, 0), (10003 / 1000, 0)]
             [(10001 / 1000, 0), (21 / 2, 0)] = Inr [(0, 1 / 1000), (0, 2 / 1000)]"
    using a b c d by (simp add: match_to_catalog_sky_def)
  have e: "position_match great_circle [(10, 0), (10003 / 1000, 0)] [(10001 / 1000, 0), (21 / 2, 0)]
        (1 / 100) = Inr ([0, 1], [1, 3])"
    by (simp add: position_match_def m match_columns_def u)
  from position_match_one_sided [OF m, of "1 / 100"]
  have "\<exists>matchCol2.
         position_match great_circle [(10, 0), (10003 / 1000, 0)] [(10001 / 1000, 0), (21 / 2, 0)]
            (1 / 100) = Inr ([0..<length [(10, 0), (10003 / 1000, 0 :: real)]], matchCol2)
       \<and> length matchCol2 = 2 \<and> distinct matchCol2"
    by auto
  with m e show ?thesis
    by blast
qed

text \<open>
  The claim as the specification words it fails: with one row in catalog 1 and two rows of
  catalog 2 within the radius of it, the second row of catalog 2 keeps its own id 2,
  where a query of catalog 1 by catalog 2 would give both rows the id 0.
\<close>

theorem position_match_direction_counterexample:
  "position_match great_circle [(10, 0)] [(10001 / 1000, 0), (10002 / 1000, 0)] (1 / 100)
     = Inr ([0], [0, 2])
   \<and> spec_matchCol2 great_circle [(10, 0)] [(10001 / 1000, 0), (10002 / 1000, 0)] (1 / 100)
     = [0, 0]"
proof -
  have a: "great_circle (10, 0) (10001 / 1000, 0) = 1 / 1000"
    using great_circle_equator [of 10 "10001 / 1000"] by simp
  have b: "great_circle (10, 0) (10002 / 1000, 0) = 2 / 1000"
    using great_circle_equator [of 10 "10002 / 1000"] by simp
  have c: "great_circle (10001 / 1000, 0) (10, 0) = 1 / 1000"
    using great_circle_equator [of "10001 / 1000" 10] by simp
  have d: "great_circle (10002 / 1000, 0) (10, 0) = 2 / 1000"
    using great_circle_equator [of "10002 / 1000" 10] by simp
  have u: "[0..<2] = [0, Suc 0]" by (simp add: upt_rec)
  show ?thesis
    using a b c d
    by (simp add: position_match_def match_to_catalog_sky_def match_columns_def
        spec_matchCol2_def u)
qed

section \<open>Patch lines of the writer\<close>

lemma sorted_distinct_adj_distinct:
  "sorted xs \<Longrightarrow> distinct_adj xs \<Longrightarrow> distinct xs"
proof (induction xs)
  case Nil
  then show ?case by simp
next
  case (Cons x xs)
  have "x \<notin> set xs"
  proof
    assume m: "x \<in> set xs"
    then obtain y ys where xs: "xs = y # ys" by (cases xs) auto
    from Cons.prems(1) xs m have "x \<le> y" "y \<le> x" by auto
    with Cons.prems(2) xs show False by (simp add: distinct_adj_Cons)
  qed
  with Cons show ?case by (auto dest: distinct_adj_ConsD)
qed

lemma groups_keys_sorted_distinct:
  "sorted (groups_keys ks (group_by_Patch ks rs))
   \<and> distinct (groups_keys ks (group_by_Patch ks rs))
   \<and> set (groups_keys ks (group_by_Patch ks rs)) = patch_of ks ` set rs"
proof -
  have s: "sorted (map (patch_of ks) (sort_key (patch_of ks) rs))"
    by (rule sorted_sort_key)
  then have "sorted (remdups_adj (map (patch_of ks) (sort_key (patch_of ks) rs)))"
    by simp
  moreover from this have "distinct (remdups_adj (map (patch_of ks) (sort_key (patch_of ks) rs)))"
    by (intro sorted_distinct_adj_distinct) simp_all
  ultimately show ?thesis
    by (simp add: groups_keys_def group_by_Patch_def)
qed

lemma patch_lines_nth:
  "patch_lines f metaDict patchNames = Inr pls \<Longrightarrow>
     length pls = length patchNames
     \<and> (\<forall>k < length patchNames.
          \<exists>gRA gDec. patch_position metaDict (patchNames ! k) = Inr (gRA, gDec)
              \<and> pls ! k = patch_line f (patchNames ! k) (gRA, gDec))"
proof (induction patchNames arbitrary: pls)
  case Nil
  then show ?case by simp
next
  case (Cons p ps)
  from Cons.prems obtain gRA gDec ls where
    a: "patch_position metaDict p = Inr (gRA, gDec)" "patch_lines f metaDict ps = Inr ls"
       "pls = patch_line f p (gRA, gDec) # ls"
    by (auto split: sum.splits)
  note ih = Cons.IH [OF a(2)]
  have "\<exists>gRA gDec. patch_position metaDict ((p # ps) ! k) = Inr (gRA, gDec)
              \<and> pls ! k = patch_line f ((p # ps) ! k) (gRA, gDec)"
    if "k < length (p # ps)" for k
  proof (cases k)
    case 0
    then show ?thesis using a by auto
  next
    case (Suc k')
    then show ?thesis using ih that a(3) by auto
  qed
  then show ?case using ih a(3) by simp
qed

lemma patch_position_cases:
  "patch_position metaDict p = Inr (gRA, gDec) \<Longrightarrow>
     (metaDict p = None \<longrightarrow> (gRA, gDec) = (0, 0))
   \<and> (\<forall>ra dec. metaDict p = Some (MPatch ra dec) \<longrightarrow> (gRA, gDec) = (ra, dec))"
  by (auto simp: patch_position_def)

text \<open>
  Claim C4, as the code has it. When a table with a \<open>Patch\<close> column is written, the
  rows are sorted by their \<open>Patch\<close> value, the rows of one patch staying in their
  order; after the format line one patch-definition line is written for every distinct
  patch, in ascending order of the patch names (the order of the grouping's keys), all
  of them before the first row; the line of a patch carries the position that the meta
  data hold under the patch's name, and \<open>(0, 0)\<close> when they hold none.
\<close>

theorem writer_patch_order:
  assumes "''Patch'' \<in> set (table_keys t)"
    and "skyModelWriter f t = Inr outLines"
  shows "\<exists>grouped patchNames pls rls.
           outLines = [format_line f (table_meta t) (table_keys t), [newline], [newline]] @ pls @ rls
         \<and> row_lines f (table_meta t) (table_keys t) grouped = Inr rls
         \<and> sorted (map (patch_of (table_keys t)) grouped)
         \<and> (\<forall>p. filter (\<lambda>r. patch_of (table_keys t) r = p) grouped
                = filter (\<lambda>r. patch_of (table_keys t) r = p) (table_rows t))
         \<and> sorted patchNames \<and> distinct patchNames
         \<and> set patchNames = patch_of (table_keys t) ` set (table_rows t)
         \<and> length pls = length patchNames
         \<and> (\<forall>k < length patchNames.
               \<exists>gRA gDec. pls ! k = patch_line f (patchNames ! k) (gRA, gDec)
                 \<and> (table_meta t (patchNames ! k) = None \<longrightarrow> (gRA, gDec) = (0, 0))
                 \<and> (\<forall>ra dec. table_meta t (patchNames ! k) = Some (MPatch ra dec)
                       \<longrightarrow> (gRA, gDec) = (ra, dec)))"
proof -
  let ?ks = "table_keys t" and ?m = "table_meta t"
  let ?g = "group_by_Patch ?ks (table_rows t)"
  let ?n = "groups_keys ?ks ?g"
  from assms obtain pls rls where
    p: "patch_lines f ?m ?n = Inr pls" and r: "row_lines f ?m ?ks ?g = Inr rls"
    and o: "outLines = [format_line f ?m ?ks, [newline], [newline]] @ pls @ rls"
    by (auto simp: skyModelWriter_def Let_def split: sum.splits)
  note pn = patch_lines_nth [OF p]
  have pos: "\<forall>k < length ?n.
               \<exists>gRA gDec. pls ! k = patch_line f (?n ! k) (gRA, gDec)
                 \<and> (?m (?n ! k) = None \<longrightarrow> (gRA, gDec) = (0, 0))
                 \<and> (\<forall>ra dec. ?m (?n ! k) = Some (MPatch ra dec) \<longrightarrow> (gRA, gDec) = (ra, dec))"
  proof (intro allI impI)
    fix k assume "k < length ?n"
    with pn obtain gRA gDec where a: "patch_position ?m (?n ! k) = Inr (gRA, gDec)"
      "pls ! k = patch_line f (?n ! k) (gRA, gDec)" by blast
    from patch_position_cases [OF a(1)] a(2)
    show "\<exists>gRA gDec. pls ! k = patch_line f (?n ! k) (gRA, gDec)
                 \<and> (?m (?n ! k) = None \<longrightarrow> (gRA, gDec) = (0, 0))
                 \<and> (\<forall>ra dec. ?m (?n ! k) = Some (MPatch ra dec) \<longrightarrow> (gRA, gDec) = (ra, dec))"
      by (intro exI [of _ gRA] exI [of _ gDec]) simp
  qed
  have st: "\<forall>p. filter (\<lambda>r. patch_of ?ks r = p) ?g = filter (\<lambda>r. patch_of ?ks r = p) (table_rows t)"
    by (simp add: group_by_Patch_def sort_key_stable)
  have so: "sorted (map (patch_of ?ks) ?g)"
    by (simp add: group_by_Patch_def)
  note gk = groups_keys_sorted_distinct [of ?ks "table_rows t"]
  have l: "length pls = length ?n" using pn by blast
  show ?thesis
    by (rule exI [of _ ?g], rule exI [of _ ?n], rule exI [of _ pls], rule exI [of _ rls])
       (use o r so st gk l pos in \<open>intro conjI; blast\<close>)
qed

lemmas writer_eval_defs =
  skyModelWriter_def format_line_def colHeader_def List.map_filter_def allowedColumnNames_def
  allowedColumnDefaults_def lower_def lower_char_def group_by_Patch_def groups_keys_def
  patch_of_def patch_position_def patch_line_def rowStr_def cell_string_def
  is_default_array_def str_list_def str_meta_def sample_fmt_def


theorem writer_patch_order_witness:
  "''Patch'' \<in> set (table_keys patched)
   \<and> skyModelWriter sample_fmt patched =
       Inr [''FORMAT = Name, Type, Patch, Ra, Dec'', [newline], [newline],
            '' , , P1, 0:00:00, 0.00.00'' @ [newline],
            '' , , P2, 0:00:00, 0.00.00'' @ [newline],
            ''b, POINT, P1, 1:00:00, 1.00.00'', [newline],
            ''a, POINT, P2, 1:00:00, 1.00.00'', [newline]]
   \<and> (\<exists>patchNames pls rls.
         [''FORMAT = Name, Type, Patch, Ra, Dec'', [newline], [newline],
            '' , , P1, 0:00:00, 0.00.00'' @ [newline],
            '' , , P2, 0:00:00, 0.00.00'' @ [newline],
            ''b, POINT, P1, 1:00:00, 1.00.00'', [newline],
            ''a, POINT, P2, 1:00:00, 1.00.00'', [newline]]
           = [format_line sample_fmt (table_meta patched) (table_keys patched), [newline], [newline]]
               @ pls @ rls
       \<and> sorted patchNames \<and> distinct patchNames
       \<and> set patchNames = patch_of (table_keys patched) ` set (table_rows patched)
       \<and> length pls = length patchNames)"
proof -
  have le: "(''P1''::string) \<le> ''P2''"
    by code_simp
  have h: "''Patch'' \<in> set (table_keys patched)"
    by (simp add: patched_def)
  have w: "skyModelWriter sample_fmt patched =
       Inr [''FORMAT = Name, Type, Patch, Ra, Dec'', [newline], [newline],
            '' , , P1, 0:00:00, 0.00.00'' @ [newline],
            '' , , P2, 0:00:00, 0.00.00'' @ [newline],
            ''b, POINT, P1, 1:00:00, 1.00.00'', [newline],
            ''a, POINT, P2, 1:00:00, 1.00.00'', [newline]]"
    using le by (simp add: writer_eval_defs patched_def)
  from writer_patch_order [OF h w] have
    "\<exists>patchNames pls rls.
         [''FORMAT = Name, Type, Patch, Ra, Dec'', [newline], [newline],
            '' , , P1, 0:00:00, 0.00.00'' @ [newline],
            '' , , P2, 0:00:00, 0.00.00'' @ [newline],
            ''b, POINT, P1, 1:00:00, 1.00.00'', [newline],
            ''a, POINT, P2, 1:00:00, 1.00.00'', [newline]]
           = [format_line sample_fmt (table_meta patched) (table_keys patched), [newline], [newline]]
               @ pls @ rls
       \<and> sorted patchNames \<and> distinct patchNames
       \<and> set patchNames = patch_of (table_keys patched) ` set (table_rows patched)
       \<and> length pls = length patchNames"
    by blast
  with h w show ?thesis
    by blast
qed

text \<open>
  The claim as the specification words it fails: in a table whose first row is in patch
  \<open>P2\<close> and whose second row is in patch \<open>P1\<close>, the order in which the patches are
  first seen is \<open>P2, P1\<close>, and the writer emits \<open>P1\<close> before \<open>P2\<close>.
\<close>

lemma str_le: "(''P1''::string) \<le> ''P2''" "\<not> (''P2''::string) \<le> ''P1''"
  by code_simp+

theorem writer_patch_order_counterexample:
  "groups_keys (table_keys patched) (group_by_Patch (table_keys patched) (table_rows patched))
     = [''P1'', ''P2'']
   \<and> remdups (map (patch_of (table_keys patched)) (table_rows patched)) = [''P2'', ''P1'']
   \<and> skyModelWriter sample_fmt patched =
       Inr [''FORMAT = Name, Type, Patch, Ra, Dec'', [newline], [newline],
            '' , , P1, 0:00:00, 0.00.00'' @ [newline],
            '' , , P2, 0:00:00, 0.00.00'' @ [newline],
            ''b, POINT, P1, 1:00:00, 1.00.00'', [newline],
            ''a, POINT, P2, 1:00:00, 1.00.00'', [newline]]"
  using str_le by (simp add: writer_eval_defs patched_def)


section \<open>Writing a table and reading it again\<close>

text \<open>
  Claim C3 fails on the file of the header \<open>FORMAT = Name, Type, Ra, Dec, I,
  SpectralIndex\<close> and the one row \<open>src1, POINT, 01:00:00.0, +01.00.00.0, 1.0, [0.0]\<close>,
  whose spectral index is the built-in default. Read: the entry's field is \<open>0.0\<close>,
  one coefficient, width 1; the table is \<open>one_source\<close>. Written: the value is equal
  to the default, so \<open>rowStr\<close> writes it as \<open>[]\<close>. Read again: the columns are
  the same, the rewriting of the bracketed entry leaves a blank field, and the conversion
  of a column whose only cell is blank (a masked entry or an empty string, whichever the
  table reader makes of it) gives width 0.
\<close>

theorem write_read_spectral_index_width:
  "header_columns decimal_float ''FORMAT = Name, Type, Ra, Dec, I, SpectralIndex''
     = Inr [(''Name'', Some (DStr ''N/A''), None), (''Type'', Some (DStr ''N/A''), None),
            (''Ra'', Some (DStr ''N/A''), None), (''Dec'', Some (DStr ''N/A''), None),
            (''I'', Some (DNum 0), None), (''SpectralIndex'', Some (DList [0]), None)]
   \<and> line_fields (''src1, POINT, 01:00:00.0, +01.00.00.0, 1.0, [0.0]'' @ [newline])
     = [''src1'', '' POINT'', '' 01:00:00.0'', '' +01.00.00.0'', '' 1.0'', '' 0.0'']
   \<and> RA2Angle decimal_float Angle_floats (Batch [PStr ''01:00:00.0'']) = Inr [15]
   \<and> Dec2Angle decimal_float Angle_floats (Batch [PStr ''+01.00.00.0'']) = Inr [1]
   \<and> convert_spectral decimal_float [CFloat 0] = [[0]]
   \<and> skyModelWriter sample_fmt one_source =
       Inr [''FORMAT = Name, Type, Ra, Dec, I, SpectralIndex='' @ [quote] @ ''[]'' @ [quote],
            [newline], [newline],
            ''src1, POINT, 1:00:00, 1.00.00, 1.0, []'', [newline]]
   \<and> header_columns decimal_float
       (''FORMAT = Name, Type, Ra, Dec, I, SpectralIndex='' @ [quote] @ ''[]'' @ [quote])
     = Inr [(''Name'', Some (DStr ''N/A''), None), (''Type'', Some (DStr ''N/A''), None),
            (''Ra'', Some (DStr ''N/A''), None), (''Dec'', Some (DStr ''N/A''), None),
            (''I'', Some (DNum 0), None), (''SpectralIndex'', Some (DList [0]), None)]
   \<and> line_fields (''src1, POINT, 1:00:00, 1.00.00, 1.0, []'' @ [newline])
     = [''src1'', '' POINT'', '' 1:00:00'', '' 1.00.00'', '' 1.0'', '' '']
   \<and> convert_spectral decimal_float [COther] = [[]]
   \<and> convert_spectral decimal_float [CStr []] = [[]]"
proof -
  have h1: "header_columns decimal_float ''FORMAT = Name, Type, Ra, Dec, I, SpectralIndex''
     = Inr [(''Name'', Some (DStr ''N/A''), None), (''Type'', Some (DStr ''N/A''), None),
            (''Ra'', Some (DStr ''N/A''), None), (''Dec'', Some (DStr ''N/A''), None),
            (''I'', Some (DNum 0), None), (''SpectralIndex'', Some (DList [0]), None)]"
    by (simp add: header_eval_defs sample_float_defs)
  have l1: "line_fields (''src1, POINT, 01:00:00.0, +01.00.00.0, 1.0, [0.0]'' @ [newline])
     = [''src1'', '' POINT'', '' 01:00:00.0'', '' +01.00.00.0'', '' 1.0'', '' 0.0'']"
    by (simp add: line_eval_defs)
  have a1: "RA2Angle decimal_float Angle_floats (Batch [PStr ''01:00:00.0'']) = Inr [15]"
    by (simp add: RA2Angle_def ra_degrees_def sample_float_defs)
  have a2: "Dec2Angle decimal_float Angle_floats (Batch [PStr ''+01.00.00.0'']) = Inr [1]"
    by (simp add: Dec2Angle_def dec_degrees_def sample_float_defs numeral_2_eq_2)
  have c1: "convert_spectral decimal_float [CFloat 0] = [[0]]"
    by (simp add: spectral_eval_defs)
  have w: "skyModelWriter sample_fmt one_source =
       Inr [''FORMAT = Name, Type, Ra, Dec, I, SpectralIndex='' @ [quote] @ ''[]'' @ [quote],
            [newline], [newline],
            ''src1, POINT, 1:00:00, 1.00.00, 1.0, []'', [newline]]"
    by (simp add: writer_eval_defs one_source_def)
  have h2: "header_columns decimal_float
       (''FORMAT = Name, Type, Ra, Dec, I, SpectralIndex='' @ [quote] @ ''[]'' @ [quote])
     = Inr [(''Name'', Some (DStr ''N/A''), None), (''Type'', Some (DStr ''N/A''), None),
            (''Ra'', Some (DStr ''N/A''), None), (''Dec'', Some (DStr ''N/A''), None),
            (''I'', Some (DNum 0), None), (''SpectralIndex'', Some (DList [0]), None)]"
    by (simp add: header_eval_defs sample_float_defs)
  have l2: "line_fields (''src1, POINT, 1:00:00, 1.00.00, 1.0, []'' @ [newline])
     = [''src1'', '' POINT'', '' 1:00:00'', '' 1.00.00'', '' 1.0'', '' '']"
    by (simp add: line_eval_defs)
  have c2: "convert_spectral decimal_float [COther] = [[]]"
    by (simp add: spectral_eval_defs)
  have c3: "convert_spectral decimal_float [CStr []] = [[]]"
    by (simp add: spectral_eval_defs sample_float_defs)
  show ?thesis
    by (intro conjI) (rule h1, rule l1, rule a1, rule a2, rule c1, rule w, rule h2, rule l2,
        rule c2, rule c3)
qed

section \<open>The SpectralIndex column after the merge\<close>

text \<open>
  Where every selected value has two coefficients and the name stands once in the
  catalog it is looked up in, the value put back is the one looked up by name, in
  catalog 2 first.
\<close>

lemma spData_of_width_two:
  assumes "length (spCol2 ! k) = 2" and "length (spCol1 ! k) = 2"
  shows "(positions name nameCol2 = [k] \<longrightarrow>
            spData_of nameCol1 spCol1 nameCol2 spCol2 name = Inr (spCol2 ! k))
       \<and> (name \<notin> set nameCol2 \<and> positions name nameCol1 = [k] \<longrightarrow>
            spData_of nameCol1 spCol1 nameCol2 spCol2 name = Inr (spCol1 ! k))"
proof -
  have w: "spData_row [v] = Inr v" if "length v = 2" for v
  proof -
    from that obtain a b where "v = [a, b]"
      by (cases v rule: remdups_adj.cases) auto
    then show ?thesis by simp
  qed
  have "name \<in> set nameCol2" if "positions name nameCol2 = [k]"
  proof -
    have "k \<in> set (positions name nameCol2)" using that by simp
    then have "k < length nameCol2" "nameCol2 ! k = name"
      by (simp_all add: set_positions)
    then show ?thesis by (metis nth_mem)
  qed
  then show ?thesis
    using assms by (auto simp: spData_of_def w)
qed


text \<open>
  Claim C7 fails on catalogs whose spectral indices do not have exactly two
  coefficients: \<open>spData\<close> has two places per row. A one-coefficient value fills both
  places, so the merged row has \<open>[v, v]\<close> and not the value \<open>[v]\<close> of its catalog;
  a three-coefficient value makes the assignment raise, and no table is merged.
\<close>

theorem concatenate_spectral_index_width:
  "concatenate remdups great_circle [source ''A'' 10 [- 4 / 5]] [source ''B'' 20 [- 1 / 2]]
       ''name'' (1 / 10) ''all''
     = Inr [source ''A'' 10 [- 4 / 5, - 4 / 5], source ''B'' 20 [- 1 / 2, - 1 / 2]]
   \<and> concatenate remdups great_circle [source ''A'' 10 [- 4 / 5, 0, 1]]
       [source ''B'' 20 [- 1 / 2, 0, 0]] ''name'' (1 / 10) ''all''
     = Inl ValueError"
  by (simp add: merge_eval_defs upt_rec source_def)


end
